theory Spec2Isabelle
  imports Main "HOL-Library.Word" "HOL-Library.Signed_Division" "HOL-Library.Sublist"
begin

unbundle bit_operations_syntax

section \<open>blue-guy: remote filesystem plane and auto-commit pipeline\<close>

text \<open>
  A shallow embedding of the host file service (\<open>internal/host\<close>: path resolver,
  metadata codec, error codec, the handlers of the file service), of the client's FUSE proxy
  (\<open>internal/client\<close>: fillStat, errToFuse, Statfs, Write) and of the git auto-commit
  engine (\<open>internal/gitops\<close>: Debouncer, commitAndPush).
\<close>

subsection \<open>Machine types\<close>

type_synonym u32 = "32 word"
type_synonym u64 = "64 word"
type_synonym i64 = "64 word"  \<comment> \<open>Go \<open>int64\<close>: two's complement, read with \<open>sint\<close>\<close>
type_synonym byte = "8 word"

subsection \<open>Errors: OS errors, gRPC status, errno\<close>

text \<open>
  The errno values the host's system calls report, and Go's rendering of them
  (\<open>syscall.Errno.Error\<close>). These belong to the platform, not to the repository.
\<close>

datatype errno =
  EPERM | ENOENT | EIO | EBADF | EACCES | EEXIST | ENOTDIR | EISDIR | EINVAL
  | EFBIG | ENOSPC | ESPIPE | ENOTEMPTY

fun strerror :: "errno \<Rightarrow> string" where
  "strerror EPERM = ''operation not permitted''"
| "strerror ENOENT = ''no such file or directory''"
| "strerror EIO = ''input/output error''"
| "strerror EBADF = ''bad file descriptor''"
| "strerror EACCES = ''permission denied''"
| "strerror EEXIST = ''file exists''"
| "strerror ENOTDIR = ''not a directory''"
| "strerror EISDIR = ''is a directory''"
| "strerror EINVAL = ''invalid argument''"
| "strerror EFBIG = ''file too large''"
| "strerror ENOSPC = ''no space left on device''"
| "strerror ESPIPE = ''illegal seek''"
| "strerror ENOTEMPTY = ''directory not empty''"

text \<open>The numbers of the errno constants (\<open>fuse.ENOENT\<close> and so on), as on Linux and macOS.\<close>

fun errno_number :: "errno \<Rightarrow> int" where
  "errno_number EPERM = 1"
| "errno_number ENOENT = 2"
| "errno_number EIO = 5"
| "errno_number EBADF = 9"
| "errno_number EACCES = 13"
| "errno_number EEXIST = 17"
| "errno_number ENOTDIR = 20"
| "errno_number EISDIR = 21"
| "errno_number EINVAL = 22"
| "errno_number EFBIG = 27"
| "errno_number ENOSPC = 28"
| "errno_number ESPIPE = 29"
| "errno_number ENOTEMPTY = 39"

text \<open>
  A Go \<open>error\<close> as the \<open>os\<close> package returns it: the sentinel \<open>io.EOF\<close>, an
  \<open>*os.PathError\<close> wrapping the errno of the failed system call, or the \<open>*os.LinkError\<close>
  of a call on two paths (\<open>os.Rename\<close>).
\<close>

datatype go_error = EOF | PathError string string errno | LinkError string string string errno

fun error_Error :: "go_error \<Rightarrow> string" where
  "error_Error EOF = ''EOF''"
| "error_Error (PathError op path e) = op @ '' '' @ path @ '': '' @ strerror e"
| "error_Error (LinkError op old new e) = op @ '' '' @ old @ '' '' @ new @ '': '' @ strerror e"

text \<open>
  \<open>os.IsNotExist\<close>, \<open>os.IsPermission\<close> and \<open>os.IsExist\<close> unwrap the error and compare
  its errno (\<open>syscall.Errno.Is\<close>).
\<close>

fun os_IsNotExist :: "go_error \<Rightarrow> bool" where
  "os_IsNotExist (PathError op path e) = (e = ENOENT)"
| "os_IsNotExist (LinkError op old new e) = (e = ENOENT)"
| "os_IsNotExist EOF = False"

fun os_IsPermission :: "go_error \<Rightarrow> bool" where
  "os_IsPermission (PathError op path e) = (e = EACCES \<or> e = EPERM)"
| "os_IsPermission (LinkError op old new e) = (e = EACCES \<or> e = EPERM)"
| "os_IsPermission EOF = False"

fun os_IsExist :: "go_error \<Rightarrow> bool" where
  "os_IsExist (PathError op path e) = (e = EEXIST \<or> e = ENOTEMPTY)"
| "os_IsExist (LinkError op old new e) = (e = EEXIST \<or> e = ENOTEMPTY)"
| "os_IsExist EOF = False"

text \<open>The gRPC status codes (\<open>google.golang.org/grpc/codes\<close>) and a status error.\<close>

datatype code =
  OK | Canceled | Unknown | InvalidArgument | DeadlineExceeded | NotFound | AlreadyExists
  | PermissionDenied | ResourceExhausted | FailedPrecondition | Aborted | OutOfRange
  | Unimplemented | Internal | Unavailable | DataLoss | Unauthenticated

datatype status = Status code string

fun status_Code :: "status \<Rightarrow> code" where
  "status_Code (Status c m) = c"

fun status_Message :: "status \<Rightarrow> string" where
  "status_Message (Status c m) = m"

text \<open>\<open>osErrToStatus\<close> (host): the checks in the order of the source.\<close>

definition osErrToStatus :: "go_error \<Rightarrow> status" where
  "osErrToStatus err =
     (if os_IsNotExist err then Status NotFound (error_Error err)
      else if os_IsPermission err then Status PermissionDenied (error_Error err)
      else if os_IsExist err then Status AlreadyExists (error_Error err)
      else Status Internal (error_Error err))"

text \<open>
  What an RPC call returns to the client on failure: a gRPC status error, or an error that
  \<open>status.FromError\<close> does not recognise (it then answers \<open>ok = false\<close> with code Unknown).
\<close>

datatype rpc_error = StatusError status | OtherError string

fun status_FromError :: "rpc_error \<Rightarrow> status \<times> bool" where
  "status_FromError (StatusError st) = (st, True)"
| "status_FromError (OtherError m) = (Status Unknown m, False)"

datatype log_level = DebugLevel | InfoLevel | WarnLevel | ErrorLevel

type_synonym log_entry = "log_level \<times> string"

text \<open>
  \<open>RemoteFS.errToFuse(err, op, path)\<close>: the negated errno handed to the kernel bridge,
  and what is logged. \<open>None\<close> is Go's \<open>nil\<close> error.
\<close>

definition errToFuse :: "rpc_error option \<Rightarrow> string \<Rightarrow> string \<Rightarrow> int \<times> log_entry list" where
  "errToFuse err op path =
     (case err of
        None \<Rightarrow> (0, [])
      | Some e \<Rightarrow>
          (case status_FromError e of
             (st, ok) \<Rightarrow>
               if \<not> ok then (- errno_number EIO, [(WarnLevel, ''non-gRPC error'')])
               else
                 (case status_Code st of
                    NotFound \<Rightarrow> (- errno_number ENOENT, [])
                  | PermissionDenied \<Rightarrow> (- errno_number EACCES, [])
                  | AlreadyExists \<Rightarrow> (- errno_number EEXIST, [])
                  | InvalidArgument \<Rightarrow> (- errno_number EINVAL, [])
                  | DeadlineExceeded \<Rightarrow> (- errno_number EIO, [(WarnLevel, ''connection issue'')])
                  | Unavailable \<Rightarrow> (- errno_number EIO, [(WarnLevel, ''connection issue'')])
                  | _ \<Rightarrow> (- errno_number EIO, [(WarnLevel, ''gRPC error'')]))))"

subsection \<open>Path resolver\<close>

text \<open>
  Go's \<open>path/filepath\<close> on Unix, which \<open>resolve\<close> calls: \<open>Clean\<close> is purely lexical.
  It reads \<open>path\<close> at index \<open>r\<close> and writes a buffer of \<open>w\<close> bytes; here \<open>rest\<close> is
  \<open>path[r:]\<close> and \<open>out\<close> is the buffer's first \<open>w\<close> bytes. \<open>dotdot\<close> is the index in the
  buffer below which a \<open>..\<close> element must not backtrack.
\<close>

definition Separator :: char where
  "Separator = CHR ''/''"

definition IsPathSeparator :: "char \<Rightarrow> bool" where
  "IsPathSeparator c = (c = Separator)"

text \<open>
  The inner loop of a \<open>..\<close> element, entered after \<open>out.w--\<close>:
  \<open>for out.w > dotdot && !os.IsPathSeparator(out.index(out.w)) { out.w-- }\<close>.
\<close>

function backtrack :: "string \<Rightarrow> nat \<Rightarrow> nat \<Rightarrow> nat" where
  "backtrack buf dotdot w =
     (if w > dotdot \<and> \<not> IsPathSeparator (buf ! w) then backtrack buf dotdot (w - 1) else w)"
  by pat_completeness auto
termination
  by (relation "measure (\<lambda>(buf, dotdot, w). w)") auto

declare backtrack.simps [simp del]

text \<open>
  One iteration of \<open>for r < n\<close> in \<open>Clean\<close>, for a non-empty \<open>rest\<close>: the four cases of
  the \<open>switch\<close> (empty element, \<open>.\<close> element, \<open>..\<close> element, real element). It returns
  the input that is left, the buffer and \<open>dotdot\<close>.
\<close>

definition clean_step :: "bool \<Rightarrow> string \<Rightarrow> string \<Rightarrow> nat \<Rightarrow> string \<times> string \<times> nat" where
  "clean_step rooted rest out dotdot =
     (if IsPathSeparator (rest ! 0) then (drop 1 rest, out, dotdot)
      else if rest ! 0 = CHR ''.'' \<and> (length rest = 1 \<or> IsPathSeparator (rest ! 1)) then
        (drop 1 rest, out, dotdot)
      else if rest ! 0 = CHR ''.'' \<and> rest ! 1 = CHR ''.'' \<and>
              (length rest = 2 \<or> IsPathSeparator (rest ! 2)) then
        (if length out > dotdot then
           (drop 2 rest, take (backtrack out dotdot (length out - 1)) out, dotdot)
         else if \<not> rooted then
           (let out' = (if length out > 0 then out @ [Separator] else out) @ ''..''
            in (drop 2 rest, out', length out'))
         else (drop 2 rest, out, dotdot))
      else
        (let out' = (if rooted \<and> length out \<noteq> 1 \<or> \<not> rooted \<and> length out \<noteq> 0
                     then out @ [Separator] else out)
         in (dropWhile (\<lambda>x. \<not> IsPathSeparator x) rest,
             out' @ takeWhile (\<lambda>x. \<not> IsPathSeparator x) rest, dotdot)))"

function clean_loop :: "bool \<Rightarrow> string \<Rightarrow> string \<Rightarrow> nat \<Rightarrow> string" where
  "clean_loop rooted rest out dotdot =
     (if rest = [] then out
      else (case clean_step rooted rest out dotdot of
              (rest', out', dotdot') \<Rightarrow> clean_loop rooted rest' out' dotdot'))"
  by pat_completeness auto
termination
  apply (relation "measure (\<lambda>(rooted, rest, out, dotdot). length rest)")
   apply simp
  subgoal for rooted rest out dotdot x rest'
    apply (cases rest)
     apply simp
    apply (auto simp: clean_step_def Let_def less_Suc_eq_le length_dropWhile_le split: if_splits)
    done
  done

declare clean_loop.simps [simp del]

text \<open>
  \<open>filepath.Clean\<close>: there is no volume name on Unix; a rooted path starts the buffer
  with the separator and \<open>r, dotdot = 1, 1\<close>; an empty result becomes \<open>.\<close>.
\<close>

definition Clean :: "string \<Rightarrow> string" where
  "Clean path =
     (if path = [] then ''.''
      else
        (let rooted = IsPathSeparator (path ! 0);
             out = (if rooted then clean_loop rooted (drop 1 path) [Separator] 1
                    else clean_loop rooted path [] 0)
         in if out = [] then ''.'' else out))"

text \<open>\<open>strings.Join\<close> and \<open>filepath.Join\<close>: leading empty elements are skipped.\<close>

fun strings_Join :: "string list \<Rightarrow> string \<Rightarrow> string" where
  "strings_Join [] sep = []"
| "strings_Join [e] sep = e"
| "strings_Join (e # es) sep = e @ sep @ strings_Join es sep"

fun Join :: "string list \<Rightarrow> string" where
  "Join [] = []"
| "Join (e # es) = (if e \<noteq> [] then Clean (strings_Join (e # es) [Separator]) else Join es)"

text \<open>\<open>FileServer.resolve\<close>; \<open>strings.HasPrefix(s, p)\<close> is \<open>prefix p s\<close>.\<close>

definition resolve :: "string \<Rightarrow> string \<Rightarrow> status + string" where
  "resolve root rel =
     (let cleaned = Clean (''/'' @ rel);
          abs = Join [root, cleaned]
      in if abs \<noteq> root \<and> \<not> prefix (root @ [Separator]) abs
         then Inl (Status InvalidArgument ''path escapes workspace root'')
         else Inr abs)"

text \<open>
  The elements of a path: the fields between separators (as \<open>strings.Split\<close> gives them).
  A path leaves a directory lexically only through a \<open>..\<close> element.
\<close>

fun path_elems :: "string \<Rightarrow> string list" where
  "path_elems [] = [[]]"
| "path_elems (c # cs) =
     (if IsPathSeparator c then [] # path_elems cs
      else (case path_elems cs of [] \<Rightarrow> [[c]] | f # fs \<Rightarrow> (c # f) # fs))"

text \<open>
  What the buffer of a rooted \<open>Clean\<close> always is: it starts with the separator and
  holds no \<open>..\<close> element.
\<close>

definition rooted_ok :: "string \<Rightarrow> bool" where
  "rooted_ok out = (out \<noteq> [] \<and> out ! 0 = Separator \<and> ''..'' \<notin> set (path_elems out))"

text \<open>
  \<open>extends R out\<close>: the buffer is \<open>R\<close> followed by whole elements, each introduced by a
  separator.
\<close>

definition extends :: "string \<Rightarrow> string \<Rightarrow> bool" where
  "extends R out = (\<exists>s. out = R @ s \<and> (s = [] \<or> s ! 0 = Separator))"

subsection \<open>Metadata codec\<close>

text \<open>
  Go's \<open>os.FileMode\<close> is a \<open>uint32\<close> with its own layout (\<open>io/fs\<close>): the type and
  special bits sit at the top, the permission bits in the low nine.
\<close>

definition ModeDir :: u32 where "ModeDir = push_bit 31 1"
definition ModeSymlink :: u32 where "ModeSymlink = push_bit 27 1"
definition ModeDevice :: u32 where "ModeDevice = push_bit 26 1"
definition ModeNamedPipe :: u32 where "ModeNamedPipe = push_bit 25 1"
definition ModeSocket :: u32 where "ModeSocket = push_bit 24 1"
definition ModeSetuid :: u32 where "ModeSetuid = push_bit 23 1"
definition ModeSetgid :: u32 where "ModeSetgid = push_bit 22 1"
definition ModeCharDevice :: u32 where "ModeCharDevice = push_bit 21 1"
definition ModeSticky :: u32 where "ModeSticky = push_bit 20 1"
definition ModePerm :: u32 where "ModePerm = 511"

text \<open>The POSIX layout of \<open>st_mode\<close>, written in decimal: \<open>S_IFMT\<close> is 0o170000,
  \<open>S_IFSOCK\<close> 0o140000, \<open>S_IFLNK\<close> 0o120000, \<open>S_IFREG\<close> 0o100000, \<open>S_IFBLK\<close> 0o060000,
  \<open>S_IFDIR\<close> 0o040000, \<open>S_IFCHR\<close> 0o020000, \<open>S_IFIFO\<close> 0o010000, \<open>S_ISUID\<close> 0o4000,
  \<open>S_ISGID\<close> 0o2000, \<open>S_ISVTX\<close> 0o1000.\<close>

definition S_IFMT :: u32 where "S_IFMT = 61440"
definition S_IFSOCK :: u32 where "S_IFSOCK = 49152"
definition S_IFLNK :: u32 where "S_IFLNK = 40960"
definition S_IFREG :: u32 where "S_IFREG = 32768"
definition S_IFBLK :: u32 where "S_IFBLK = 24576"
definition S_IFDIR :: u32 where "S_IFDIR = 16384"
definition S_IFCHR :: u32 where "S_IFCHR = 8192"
definition S_IFIFO :: u32 where "S_IFIFO = 4096"
definition S_ISUID :: u32 where "S_ISUID = 2048"
definition S_ISGID :: u32 where "S_ISGID = 1024"
definition S_ISVTX :: u32 where "S_ISVTX = 512"

text \<open>\<open>FileMode.Perm\<close> and \<open>FileMode.IsDir\<close>.\<close>

definition FileMode_Perm :: "u32 \<Rightarrow> u32" where
  "FileMode_Perm m = m AND ModePerm"

definition FileMode_IsDir :: "u32 \<Rightarrow> bool" where
  "FileMode_IsDir m = (m AND ModeDir \<noteq> 0)"

text \<open>
  \<open>goModeToUnix\<close>: the permission bits, then the three special bits, then the type bits
  by the \<open>switch\<close> of the source, first match first (2048 = 0o4000, 1024 = 0o2000,
  512 = 0o1000, 16384 = 0o040000, 40960 = 0o120000, 4096 = 0o010000, 49152 = 0o140000,
  8192 = 0o020000, 24576 = 0o060000, 32768 = 0o100000).
\<close>

definition goModeToUnix :: "u32 \<Rightarrow> u32" where
  "goModeToUnix m =
     (let mode = FileMode_Perm m;
          mode = (if m AND ModeSetuid \<noteq> 0 then mode OR 2048 else mode);
          mode = (if m AND ModeSetgid \<noteq> 0 then mode OR 1024 else mode);
          mode = (if m AND ModeSticky \<noteq> 0 then mode OR 512 else mode)
      in if FileMode_IsDir m then mode OR 16384
         else if m AND ModeSymlink \<noteq> 0 then mode OR 40960
         else if m AND ModeNamedPipe \<noteq> 0 then mode OR 4096
         else if m AND ModeSocket \<noteq> 0 then mode OR 49152
         else if m AND ModeDevice \<noteq> 0 \<and> m AND ModeCharDevice \<noteq> 0 then mode OR 8192
         else if m AND ModeDevice \<noteq> 0 then mode OR 24576
         else mode OR 32768)"

text \<open>
  Where a host-native file info comes from: \<open>os.Lstat\<close> reads the system's \<open>stat\<close>
  structure and Go's \<open>os\<close> package (\<open>fillFileStatFromSys\<close>, not part of the repository)
  turns \<open>st_mode\<close> into a \<open>FileMode\<close>.
\<close>

definition fileModeFromSys :: "u32 \<Rightarrow> u32" where
  "fileModeFromSys st_mode =
     (let mode = st_mode AND 511;
          t = st_mode AND S_IFMT;
          mode = (if t = S_IFBLK then mode OR ModeDevice
                  else if t = S_IFCHR then mode OR ModeDevice OR ModeCharDevice
                  else if t = S_IFDIR then mode OR ModeDir
                  else if t = S_IFIFO then mode OR ModeNamedPipe
                  else if t = S_IFLNK then mode OR ModeSymlink
                  else if t = S_IFREG then mode
                  else if t = S_IFSOCK then mode OR ModeSocket
                  else mode);
          mode = (if st_mode AND S_ISGID \<noteq> 0 then mode OR ModeSetgid else mode);
          mode = (if st_mode AND S_ISUID \<noteq> 0 then mode OR ModeSetuid else mode);
          mode = (if st_mode AND S_ISVTX \<noteq> 0 then mode OR ModeSticky else mode)
      in mode)"

record timespec =
  Sec :: i64
  Nsec :: i64

record sys_stat =
  sys_Mode :: u32
  sys_Size :: i64
  sys_Mtim :: timespec

text \<open>What \<open>fs.FileInfo\<close> answers: \<open>Name()\<close>, \<open>Size()\<close>, \<open>Mode()\<close>, \<open>ModTime()\<close>;
  \<open>IsDir()\<close> is \<open>Mode().IsDir()\<close>.\<close>

record fileStat =
  fs_name :: string
  fs_size :: i64
  fs_mode :: u32
  fs_modTime :: timespec

definition fillFileStatFromSys :: "string \<Rightarrow> sys_stat \<Rightarrow> fileStat" where
  "fillFileStatFromSys name sys =
     \<lparr>fs_name = name, fs_size = sys_Size sys, fs_mode = fileModeFromSys (sys_Mode sys),
      fs_modTime = sys_Mtim sys\<rparr>"

text \<open>\<open>Time.Unix()\<close>: the whole seconds since the epoch.\<close>

definition Time_Unix :: "timespec \<Rightarrow> i64" where
  "Time_Unix t = Sec t"

text \<open>The wire form \<open>pb.FileInfo\<close> and \<open>fileInfoToProto\<close>.\<close>

record FileInfo =
  fi_Name :: string
  fi_Size :: i64
  fi_Mode :: u32
  fi_ModTimeUnix :: i64
  fi_IsDir :: bool

definition fileInfoToProto :: "fileStat \<Rightarrow> FileInfo" where
  "fileInfoToProto info =
     \<lparr>fi_Name = fs_name info,
      fi_Size = fs_size info,
      fi_Mode = goModeToUnix (fs_mode info),
      fi_ModTimeUnix = Time_Unix (fs_modTime info),
      fi_IsDir = FileMode_IsDir (fs_mode info)\<rparr>"

text \<open>cgofuse's \<open>fuse.Stat_t\<close>.\<close>

record Stat_t =
  Stat_Dev :: u64
  Stat_Ino :: u64
  Stat_Mode :: u32
  Stat_Nlink :: u32
  Stat_Uid :: u32
  Stat_Gid :: u32
  Stat_Rdev :: u64
  Stat_Size :: i64
  Stat_Atim :: timespec
  Stat_Mtim :: timespec
  Stat_Ctim :: timespec
  Stat_Blksize :: i64
  Stat_Blocks :: i64
  Stat_Birthtim :: timespec
  Stat_Flags :: u32

text \<open>Go's \<open>/\<close> on \<open>int64\<close>: the quotient truncated towards zero, in 64 bits.\<close>

definition i64_div :: "i64 \<Rightarrow> i64 \<Rightarrow> i64" where
  "i64_div a b = word_of_int (sint a sdiv sint b)"

text \<open>
  \<open>fillStat(stat, info)\<close> writes through \<open>stat\<close>; the model returns the structure.
  \<open>uid\<close> and \<open>gid\<close> are what \<open>os.Getuid()\<close> and \<open>os.Getgid()\<close> answer. \<open>Blocks\<close> is
  assigned only when \<open>info.Size > 0\<close>, by \<open>(info.Size + 511) / 512\<close> in \<open>int64\<close>.
\<close>

definition fillStat :: "Stat_t \<Rightarrow> FileInfo \<Rightarrow> int \<Rightarrow> int \<Rightarrow> Stat_t" where
  "fillStat stat info uid gid =
     (let mtim = \<lparr>Sec = fi_ModTimeUnix info, Nsec = 0\<rparr>;
          stat = stat\<lparr>Stat_Mode := fi_Mode info,
                      Stat_Size := fi_Size info,
                      Stat_Mtim := mtim,
                      Stat_Atim := mtim,
                      Stat_Ctim := mtim,
                      Stat_Birthtim := mtim,
                      Stat_Nlink := (if fi_IsDir info then 2 else 1),
                      Stat_Uid := word_of_int uid,
                      Stat_Gid := word_of_int gid,
                      Stat_Blksize := 4096\<rparr>
      in if 0 < sint (fi_Size info)
         then stat\<lparr>Stat_Blocks := i64_div (fi_Size info + 511) 512\<rparr>
         else stat)"

text \<open>A fresh \<open>fuse.Stat_t\<close> (\<open>var st fuse.Stat_t\<close> in Readdir).\<close>

definition zero_timespec :: timespec where
  "zero_timespec = \<lparr>Sec = 0, Nsec = 0\<rparr>"

definition zero_Stat :: Stat_t where
  "zero_Stat = \<lparr>Stat_Dev = 0, Stat_Ino = 0, Stat_Mode = 0, Stat_Nlink = 0, Stat_Uid = 0,
     Stat_Gid = 0, Stat_Rdev = 0, Stat_Size = 0, Stat_Atim = zero_timespec,
     Stat_Mtim = zero_timespec, Stat_Ctim = zero_timespec, Stat_Blksize = 0, Stat_Blocks = 0,
     Stat_Birthtim = zero_timespec, Stat_Flags = 0\<rparr>"

text \<open>The file types of the data model: the type bits of \<open>st_mode\<close> name one of them.\<close>

definition valid_file_type :: "u32 \<Rightarrow> bool" where
  "valid_file_type st_mode =
     (st_mode AND S_IFMT = S_IFREG \<or> st_mode AND S_IFMT = S_IFDIR \<or> st_mode AND S_IFMT = S_IFLNK
      \<or> st_mode AND S_IFMT = S_IFIFO \<or> st_mode AND S_IFMT = S_IFSOCK
      \<or> st_mode AND S_IFMT = S_IFCHR \<or> st_mode AND S_IFMT = S_IFBLK)"


subsection \<open>The host's filesystem\<close>

text \<open>
  The operating system under the file service. What a path names: a regular file with its
  bytes and whether the server may read and write it, a directory, or a file of another
  kind on which seek, read and write fail with the given errno.
\<close>

datatype node = RegularFile "byte list" bool bool | Directory | Special errno

text \<open>
  What looking a path up gives: the node there; \<open>NoEntry\<close> when every directory on the
  way exists and the last element is missing (ENOENT; \<open>O_CREATE\<close> may create it); or the
  errno with which the walk fails before the last element (ENOENT, ENOTDIR, EACCES).
\<close>

datatype entry = Node node | NoEntry | Unreachable errno

type_synonym filesystem = "string \<Rightarrow> entry"

text \<open>An open \<open>*os.File\<close>: the path it was opened at and its offset.\<close>

record File =
  f_name :: string
  f_offset :: nat

text \<open>
  \<open>os.OpenFile(name, flag, perm)\<close> for the flags the service passes (\<open>O_RDONLY\<close> is the
  absence of \<open>O_WRONLY\<close>). Only \<open>O_CREATE\<close> makes a missing file; \<open>O_TRUNC\<close> empties a
  file opened for writing; 256 = 0o400 and 128 = 0o200 are the owner's read and write bits.
  \<open>os.Open(name)\<close> is \<open>OpenFile(name, O_RDONLY, 0)\<close>.
\<close>

datatype open_flag = O_WRONLY | O_CREATE | O_EXCL | O_TRUNC

definition os_OpenFile ::
  "filesystem \<Rightarrow> string \<Rightarrow> open_flag set \<Rightarrow> u32 \<Rightarrow> filesystem \<times> (go_error + File)" where
  "os_OpenFile fs name flag perm =
     (let f = \<lparr>f_name = name, f_offset = 0\<rparr> in
      case fs name of
        Unreachable e \<Rightarrow> (fs, Inl (PathError ''open'' name e))
      | NoEntry \<Rightarrow>
          if O_CREATE \<in> flag
          then (fs(name := Node (RegularFile [] (perm AND 256 \<noteq> 0) (perm AND 128 \<noteq> 0))), Inr f)
          else (fs, Inl (PathError ''open'' name ENOENT))
      | Node n \<Rightarrow>
          if O_CREATE \<in> flag \<and> O_EXCL \<in> flag then (fs, Inl (PathError ''open'' name EEXIST))
          else
            (case n of
               RegularFile bs r w \<Rightarrow>
                 if O_WRONLY \<in> flag \<and> \<not> w \<or> O_WRONLY \<notin> flag \<and> \<not> r
                 then (fs, Inl (PathError ''open'' name EACCES))
                 else if O_WRONLY \<in> flag \<and> O_TRUNC \<in> flag
                 then (fs(name := Node (RegularFile [] r w)), Inr f)
                 else (fs, Inr f)
             | Directory \<Rightarrow>
                 if O_WRONLY \<in> flag then (fs, Inl (PathError ''open'' name EISDIR))
                 else (fs, Inr f)
             | Special e \<Rightarrow> (fs, Inr f)))"

definition os_Open :: "filesystem \<Rightarrow> string \<Rightarrow> go_error + File" where
  "os_Open fs name = snd (os_OpenFile fs name {} 0)"

text \<open>
  \<open>f.Seek(offset, 0)\<close>, \<open>f.Read(b)\<close> and \<open>f.Write(b)\<close>. The offset is an \<open>int64\<close>.
  \<open>maxbytes\<close> is the largest file offset the host's filesystem supports (on Linux the
  superblock's \<open>s_maxbytes\<close>: 2^44 - 4096 on ext4 with 4 KiB blocks, 2^63 - 1 on XFS and
  tmpfs). Seeking past the end of a regular file is allowed up to that maximum; a negative
  offset and an offset beyond the maximum are refused with EINVAL. \<open>Read\<close> returns the
  count, the buffer and the error: a regular file gives the bytes it holds from the
  offset on, as many as the buffer takes; at the end of the file it reads nothing and
  answers \<open>io.EOF\<close>.
\<close>

definition File_Seek :: "i64 \<Rightarrow> filesystem \<Rightarrow> File \<Rightarrow> i64 \<Rightarrow> go_error + File" where
  "File_Seek maxbytes fs f offset =
     (case fs (f_name f) of
        Node (Special e) \<Rightarrow> Inl (PathError ''seek'' (f_name f) e)
      | _ \<Rightarrow>
          if sint offset < 0 \<or> sint maxbytes < sint offset
          then Inl (PathError ''seek'' (f_name f) EINVAL)
          else Inr (f\<lparr>f_offset := nat (sint offset)\<rparr>))"

definition File_Read :: "filesystem \<Rightarrow> File \<Rightarrow> byte list \<Rightarrow> nat \<times> byte list \<times> go_error option" where
  "File_Read fs f b =
     (if length b = 0 then (0, b, None)
      else
        (case fs (f_name f) of
           Node (RegularFile bs r w) \<Rightarrow>
             (let d = take (length b) (drop (f_offset f) bs) in
              if d = [] then (0, b, Some EOF)
              else (length d, d @ drop (length d) b, None))
         | Node Directory \<Rightarrow> (0, b, Some (PathError ''read'' (f_name f) EISDIR))
         | Node (Special e) \<Rightarrow> (0, b, Some (PathError ''read'' (f_name f) e))
         | _ \<Rightarrow> (0, b, Some (PathError ''read'' (f_name f) EBADF))))"

text \<open>
  The bytes of a regular file after \<open>b\<close> is written at offset \<open>off\<close>: a gap beyond the
  old end reads as zeros; writing no bytes changes nothing.
\<close>

definition write_at :: "byte list \<Rightarrow> nat \<Rightarrow> byte list \<Rightarrow> byte list" where
  "write_at bs off b =
     (if b = [] then bs
      else take off bs @ replicate (off - length bs) 0 @ b @ drop (off + length b) bs)"

text \<open>
  \<open>f.Write(b)\<close> writes until all of \<open>b\<close> is written or the system refuses. A regular file
  takes the bytes up to \<open>maxbytes\<close>; a write at or beyond it is refused with EFBIG, so a
  write that would pass the maximum stores the bytes that fit and returns that error.
\<close>

definition File_Write :: "i64 \<Rightarrow> filesystem \<Rightarrow> File \<Rightarrow> byte list \<Rightarrow> filesystem \<times> go_error option" where
  "File_Write maxbytes fs f b =
     (case fs (f_name f) of
        Node (RegularFile bs r w) \<Rightarrow>
          if b = [] then (fs, None)
          else if sint maxbytes \<le> int (f_offset f)
          then (fs, Some (PathError ''write'' (f_name f) EFBIG))
          else
            (let room = nat (sint maxbytes) - f_offset f;
                 d = take room b
             in (fs(f_name f := Node (RegularFile (write_at bs (f_offset f) d) r w)),
                 if length b \<le> room then None else Some (PathError ''write'' (f_name f) EFBIG)))
      | Node (Special e) \<Rightarrow> (fs, Some (PathError ''write'' (f_name f) e))
      | _ \<Rightarrow> (fs, Some (PathError ''write'' (f_name f) EBADF)))"

subsection \<open>RPC file service\<close>

text \<open>
  The request messages of ReadFile and WriteFile. \<open>Offset\<close> and \<open>Length\<close> are \<open>int64\<close>.
\<close>

record ReadFileRequest =
  rf_Path :: string
  rf_Offset :: i64
  rf_Length :: i64

record WriteFileRequest =
  wf_Path :: string
  wf_Data :: "byte list"
  wf_Offset :: i64
  wf_Truncate :: bool

text \<open>\<open>const maxReadSize = 1 << 20\<close>.\<close>

definition maxReadSize :: i64 where
  "maxReadSize = push_bit 20 1"

text \<open>
  \<open>FileServer.ReadFile\<close>: resolve, open, clamp the local \<open>length\<close> (\<open>len\<close> here) by
  \<open>if length <= 0 || length > maxReadSize { length = maxReadSize }\<close>, make the buffer of
  that many bytes, seek if \<open>Offset > 0\<close>, read once; an error other than \<open>io.EOF\<close> with
  nothing read is returned, otherwise \<open>buf[:n]\<close>.
\<close>

definition ReadFile :: "string \<Rightarrow> i64 \<Rightarrow> filesystem \<Rightarrow> ReadFileRequest \<Rightarrow> status + byte list" where
  "ReadFile root maxbytes fs req =
     (case resolve root (rf_Path req) of
        Inl st \<Rightarrow> Inl st
      | Inr apath \<Rightarrow>
          (case os_Open fs apath of
             Inl err \<Rightarrow> Inl (osErrToStatus err)
           | Inr f \<Rightarrow>
               (let len = rf_Length req;
                    len = (if sint len \<le> 0 \<or> sint maxReadSize < sint len then maxReadSize else len);
                    buf = replicate (nat (sint len)) 0
                in case (if 0 < sint (rf_Offset req) then File_Seek maxbytes fs f (rf_Offset req)
                         else Inr f) of
                     Inl err \<Rightarrow> Inl (Status Internal (''seek: '' @ error_Error err))
                   | Inr f' \<Rightarrow>
                       (case File_Read fs f' buf of
                          (n, buf', err) \<Rightarrow>
                            (case err of
                               None \<Rightarrow> Inr (take n buf')
                             | Some e \<Rightarrow>
                                 if e \<noteq> EOF \<and> n = 0 then Inl (osErrToStatus e)
                                 else Inr (take n buf'))))))"

text \<open>
  \<open>FileServer.WriteFile\<close>: \<open>O_WRONLY\<close>, with \<open>O_TRUNC\<close> iff \<open>Truncate\<close>; permission 0; seek
  if \<open>Offset > 0\<close>; write the data. The filesystem is returned with the result, since a
  truncating open has taken effect even when a later step fails.
\<close>

definition WriteFile ::
  "string \<Rightarrow> i64 \<Rightarrow> filesystem \<Rightarrow> WriteFileRequest \<Rightarrow> filesystem \<times> (status + unit)" where
  "WriteFile root maxbytes fs req =
     (case resolve root (wf_Path req) of
        Inl st \<Rightarrow> (fs, Inl st)
      | Inr apath \<Rightarrow>
          (let flags = (if wf_Truncate req then {O_WRONLY, O_TRUNC} else {O_WRONLY}) in
           case os_OpenFile fs apath flags 0 of
             (fs1, Inl err) \<Rightarrow> (fs1, Inl (osErrToStatus err))
           | (fs1, Inr f) \<Rightarrow>
               (case (if 0 < sint (wf_Offset req) then File_Seek maxbytes fs1 f (wf_Offset req)
                      else Inr f) of
                  Inl err \<Rightarrow> (fs1, Inl (Status Internal (''seek: '' @ error_Error err)))
                | Inr f' \<Rightarrow>
                    (case File_Write maxbytes fs1 f' (wf_Data req) of
                       (fs2, Some err) \<Rightarrow> (fs2, Inl (Status Internal (''write: '' @ error_Error err)))
                     | (fs2, None) \<Rightarrow> (fs2, Inr ())))))"

text \<open>\<open>FileServer.Create\<close>: create + exclusive + write-only; mode 0 means 0o644 (420).\<close>

definition Create :: "string \<Rightarrow> filesystem \<Rightarrow> string \<Rightarrow> u32 \<Rightarrow> filesystem \<times> (status + unit)" where
  "Create root fs path mode =
     (case resolve root path of
        Inl st \<Rightarrow> (fs, Inl st)
      | Inr apath \<Rightarrow>
          (let mode = (if mode = 0 then 420 else mode) in
           case os_OpenFile fs apath {O_CREATE, O_EXCL, O_WRONLY} mode of
             (fs1, Inl err) \<Rightarrow> (fs1, Inl (osErrToStatus err))
           | (fs1, Inr f) \<Rightarrow> (fs1, Inr ())))"

text \<open>
  The other handlers make one call of the \<open>os\<close> package on the resolved path and return
  its error through \<open>osErrToStatus\<close>. Only their answers matter here, so the call is a
  parameter: what \<open>os.Lstat\<close>, \<open>os.ReadDir\<close>, \<open>os.Mkdir\<close>, \<open>os.Remove\<close>, \<open>os.Rename\<close>,
  \<open>os.Chmod\<close> and \<open>os.Truncate\<close> answer on the host (\<open>None\<close> is Go's \<open>nil\<close> error).
\<close>

definition Stat :: "string \<Rightarrow> (string \<Rightarrow> go_error + fileStat) \<Rightarrow> string \<Rightarrow> status + FileInfo" where
  "Stat root os_Lstat path =
     (case resolve root path of
        Inl st \<Rightarrow> Inl st
      | Inr apath \<Rightarrow>
          (case os_Lstat apath of
             Inl err \<Rightarrow> Inl (osErrToStatus err)
           | Inr info \<Rightarrow> Inr (fileInfoToProto info)))"

text \<open>
  \<open>FileServer.ReadDir\<close>: a directory entry is given by what its \<open>Info()\<close> answers; an
  entry whose \<open>Info()\<close> fails is skipped (\<open>continue\<close>).
\<close>

definition ReadDir ::
  "string \<Rightarrow> (string \<Rightarrow> go_error + (go_error + fileStat) list) \<Rightarrow> string \<Rightarrow> status + FileInfo list" where
  "ReadDir root os_ReadDir path =
     (case resolve root path of
        Inl st \<Rightarrow> Inl st
      | Inr apath \<Rightarrow>
          (case os_ReadDir apath of
             Inl err \<Rightarrow> Inl (osErrToStatus err)
           | Inr entries \<Rightarrow>
               Inr (concat (map (\<lambda>entry. case entry of
                                            Inl err \<Rightarrow> []
                                          | Inr info \<Rightarrow> [fileInfoToProto info]) entries))))"

text \<open>\<open>FileServer.Mkdir\<close>: mode 0 means 0o755 (493).\<close>

definition Mkdir :: "string \<Rightarrow> (string \<Rightarrow> u32 \<Rightarrow> go_error option) \<Rightarrow> string \<Rightarrow> u32 \<Rightarrow> status + unit" where
  "Mkdir root os_Mkdir path mode =
     (case resolve root path of
        Inl st \<Rightarrow> Inl st
      | Inr apath \<Rightarrow>
          (let mode = (if mode = 0 then 493 else mode) in
           case os_Mkdir apath mode of
             Some err \<Rightarrow> Inl (osErrToStatus err)
           | None \<Rightarrow> Inr ()))"

definition Remove :: "string \<Rightarrow> (string \<Rightarrow> go_error option) \<Rightarrow> string \<Rightarrow> status + unit" where
  "Remove root os_Remove path =
     (case resolve root path of
        Inl st \<Rightarrow> Inl st
      | Inr apath \<Rightarrow>
          (case os_Remove apath of
             Some err \<Rightarrow> Inl (osErrToStatus err)
           | None \<Rightarrow> Inr ()))"

definition Rename ::
  "string \<Rightarrow> (string \<Rightarrow> string \<Rightarrow> go_error option) \<Rightarrow> string \<Rightarrow> string \<Rightarrow> status + unit" where
  "Rename root os_Rename old_path new_path =
     (case resolve root old_path of
        Inl st \<Rightarrow> Inl st
      | Inr oldAbs \<Rightarrow>
          (case resolve root new_path of
             Inl st \<Rightarrow> Inl st
           | Inr newAbs \<Rightarrow>
               (case os_Rename oldAbs newAbs of
                  Some err \<Rightarrow> Inl (osErrToStatus err)
                | None \<Rightarrow> Inr ())))"

definition Chmod :: "string \<Rightarrow> (string \<Rightarrow> u32 \<Rightarrow> go_error option) \<Rightarrow> string \<Rightarrow> u32 \<Rightarrow> status + unit" where
  "Chmod root os_Chmod path mode =
     (case resolve root path of
        Inl st \<Rightarrow> Inl st
      | Inr apath \<Rightarrow>
          (case os_Chmod apath mode of
             Some err \<Rightarrow> Inl (osErrToStatus err)
           | None \<Rightarrow> Inr ()))"

definition Truncate :: "string \<Rightarrow> (string \<Rightarrow> i64 \<Rightarrow> go_error option) \<Rightarrow> string \<Rightarrow> i64 \<Rightarrow> status + unit" where
  "Truncate root os_Truncate path sz =
     (case resolve root path of
        Inl st \<Rightarrow> Inl st
      | Inr apath \<Rightarrow>
          (case os_Truncate apath sz of
             Some err \<Rightarrow> Inl (osErrToStatus err)
           | None \<Rightarrow> Inr ()))"

subsection \<open>FUSE proxy: Write\<close>

text \<open>
  An RPC either reaches the host and brings back its answer, or fails before the host has
  seen it, or fails after the host has served it (a deadline that expires on the way back).
\<close>

datatype transport = Delivered | NotDelivered rpc_error | ReplyLost rpc_error

definition client_WriteFile ::
  "transport \<Rightarrow> string \<Rightarrow> i64 \<Rightarrow> filesystem \<Rightarrow> WriteFileRequest \<Rightarrow> filesystem \<times> rpc_error option" where
  "client_WriteFile tr root maxbytes fs req =
     (case tr of
        NotDelivered e \<Rightarrow> (fs, Some e)
      | ReplyLost e \<Rightarrow> (fst (WriteFile root maxbytes fs req), Some e)
      | Delivered \<Rightarrow>
          (case WriteFile root maxbytes fs req of
             (fs', Inl st) \<Rightarrow> (fs', Some (StatusError st))
           | (fs', Inr u) \<Rightarrow> (fs', None)))"

text \<open>
  \<open>RemoteFS.Write(path, buff, ofst, fh)\<close> sends
  \<open>&pb.WriteFileRequest{Path: path, Data: buff, Offset: ofst}\<close>: \<open>Truncate\<close> is left at
  its zero value. It returns \<open>len(buff)\<close>, or the errno of \<open>errToFuse\<close>.
\<close>

definition Write_request :: "string \<Rightarrow> byte list \<Rightarrow> i64 \<Rightarrow> WriteFileRequest" where
  "Write_request path buff ofst = \<lparr>wf_Path = path, wf_Data = buff, wf_Offset = ofst, wf_Truncate = False\<rparr>"

definition RemoteFS_Write ::
  "transport \<Rightarrow> string \<Rightarrow> i64 \<Rightarrow> filesystem \<Rightarrow> string \<Rightarrow> byte list \<Rightarrow> i64 \<Rightarrow> u64 \<Rightarrow> filesystem \<times> int" where
  "RemoteFS_Write tr root maxbytes fs path buff ofst fh =
     (case client_WriteFile tr root maxbytes fs (Write_request path buff ofst) of
        (fs', Some err) \<Rightarrow> (fs', fst (errToFuse (Some err) ''Write'' path))
      | (fs', None) \<Rightarrow> (fs', int (length buff)))"

text \<open>
  A write of \<open>len\<close> bytes at \<open>off\<close> respects the frame between two filesystems when every
  regular file is still one with the same permissions, is no shorter, and keeps every old
  byte outside \<open>[off, off + len)\<close>, and nothing else has changed.
\<close>

definition frame_ok :: "filesystem \<Rightarrow> filesystem \<Rightarrow> nat \<Rightarrow> nat \<Rightarrow> bool" where
  "frame_ok fs fs' off len =
     (\<forall>q. case fs q of
            Node (RegularFile bs r w) \<Rightarrow>
              (\<exists>bs'. fs' q = Node (RegularFile bs' r w) \<and> length bs \<le> length bs'
                 \<and> (\<forall>i<length bs. i < off \<or> off + len \<le> i \<longrightarrow> bs' ! i = bs ! i))
          | _ \<Rightarrow> fs' q = fs q)"

text \<open>A small workspace at \<open>/ws\<close> holding \<open>a.txt\<close> with five bytes.\<close>

definition fs0 :: filesystem where
  "fs0 = (\<lambda>p. NoEntry)(''/ws'' := Node Directory, ''/ws/a.txt'' := Node (RegularFile [1, 2, 3, 4, 5] True True))"

text \<open>
  The same workspace with two more paths as the host answers for them: a path below the
  regular file \<open>a.txt\<close>, where the lookup stops with ENOTDIR, and a file \<open>locked\<close> that
  opens but whose writes the system refuses with EPERM.
\<close>

definition fs_host :: filesystem where
  "fs_host = fs0(''/ws/a.txt/x'' := Unreachable ENOTDIR, ''/ws/locked'' := Node (Special EPERM))"

text \<open>The maximum file offset of ext4 with 4 KiB blocks: (2^32 - 1) * 4096 = 2^44 - 4096.\<close>

definition maxbytes_ext4 :: i64 where
  "maxbytes_ext4 = 17592186040320"

subsection \<open>Debouncer\<close>

text \<open>
  Time is a count of nanoseconds. The Go runtime's timers are kept in a list: each
  \<open>time.AfterFunc\<close> adds one, and a \<open>*time.Timer\<close> is its index. A timer has the
  instant at which it expires and whether it is still armed.
\<close>

record timer =
  t_when :: int
  t_armed :: bool

text \<open>
  The \<open>Debouncer\<close> struct: \<open>delay\<close>, the pointer \<open>timer\<close> (\<open>None\<close> is \<open>nil\<close>), and the
  instants at which \<open>fn\<close> has run. The two mutexes serialise the methods and the runs of
  \<open>fn\<close>; the calls below are taken one at a time.
\<close>

record Debouncer =
  delay :: int
  timers :: "timer list"
  d_timer :: "nat option"
  calls :: "int list"

definition NewDebouncer :: "int \<Rightarrow> Debouncer" where
  "NewDebouncer d = \<lparr>delay = d, timers = [], d_timer = None, calls = []\<rparr>"

text \<open>
  \<open>time.AfterFunc(d, f)\<close> arms a timer that expires \<open>d\<close> from now (at once when \<open>d\<close> is
  not positive); \<open>Timer.Stop\<close> disarms a timer, and does nothing to one that has expired.
\<close>

definition time_AfterFunc :: "int \<Rightarrow> int \<Rightarrow> Debouncer \<Rightarrow> Debouncer \<times> nat" where
  "time_AfterFunc now d st =
     (st\<lparr>timers := timers st @ [\<lparr>t_when = now + max 0 d, t_armed = True\<rparr>]\<rparr>, length (timers st))"

definition timer_Stop :: "nat \<Rightarrow> Debouncer \<Rightarrow> Debouncer" where
  "timer_Stop i st = st\<lparr>timers := (timers st)[i := (timers st ! i)\<lparr>t_armed := False\<rparr>]\<rparr>"

text \<open>\<open>Debouncer.fire\<close>: \<open>fn\<close> runs.\<close>

definition fire :: "int \<Rightarrow> Debouncer \<Rightarrow> Debouncer" where
  "fire now st = st\<lparr>calls := calls st @ [now]\<rparr>"

text \<open>
  Time passing until \<open>now\<close>: every armed timer whose instant has come expires, is
  disarmed, and runs \<open>fire\<close> at that instant.
\<close>

definition expired :: "int \<Rightarrow> timer \<Rightarrow> bool" where
  "expired now t = (t_armed t \<and> t_when t \<le> now)"

definition advance :: "int \<Rightarrow> Debouncer \<Rightarrow> Debouncer" where
  "advance now st =
     fold (\<lambda>t. fire (t_when t)) (filter (expired now) (timers st))
       (st\<lparr>timers := map (\<lambda>t. if expired now t then t\<lparr>t_armed := False\<rparr> else t) (timers st)\<rparr>)"

text \<open>\<open>Trigger\<close>, \<open>Stop\<close> and \<open>Flush\<close>, called at the instant \<open>now\<close>.\<close>

definition Trigger :: "int \<Rightarrow> Debouncer \<Rightarrow> Debouncer" where
  "Trigger now st =
     (let st1 = (case d_timer st of None \<Rightarrow> st | Some i \<Rightarrow> timer_Stop i st)
      in case time_AfterFunc now (delay st1) st1 of
           (st2, i) \<Rightarrow> st2\<lparr>d_timer := Some i\<rparr>)"

definition Stop :: "int \<Rightarrow> Debouncer \<Rightarrow> Debouncer" where
  "Stop now st =
     (case d_timer st of
        None \<Rightarrow> st
      | Some i \<Rightarrow> (timer_Stop i st)\<lparr>d_timer := None\<rparr>)"

definition Flush :: "int \<Rightarrow> Debouncer \<Rightarrow> Debouncer" where
  "Flush now st =
     (let pending = (d_timer st \<noteq> None);
          st1 = (case d_timer st of
                   None \<Rightarrow> st
                 | Some i \<Rightarrow> (timer_Stop i st)\<lparr>d_timer := None\<rparr>)
      in if pending then fire now st1 else st1)"

text \<open>A history of calls with their instants; time passes up to each call.\<close>

datatype call = TriggerCall | StopCall | FlushCall

fun do_call :: "call \<Rightarrow> int \<Rightarrow> Debouncer \<Rightarrow> Debouncer" where
  "do_call TriggerCall now st = Trigger now st"
| "do_call StopCall now st = Stop now st"
| "do_call FlushCall now st = Flush now st"

fun run :: "Debouncer \<Rightarrow> (int \<times> call) list \<Rightarrow> Debouncer" where
  "run st [] = st"
| "run st ((now, c) # cs) = run (do_call c now (advance now st)) cs"

text \<open>
  A burst: instants in order, each less than \<open>d\<close> after the one before. \<open>triggers\<close> is
  the history that calls \<open>Trigger\<close> at each of them.
\<close>

fun burst :: "int \<Rightarrow> int list \<Rightarrow> bool" where
  "burst d [] = True"
| "burst d [t] = True"
| "burst d (t # t' # ts) = (t \<le> t' \<and> t' - t < d \<and> burst d (t' # ts))"

definition triggers :: "int list \<Rightarrow> (int \<times> call) list" where
  "triggers ts = map (\<lambda>t. (t, TriggerCall)) ts"

text \<open>
  A debouncer at rest: no timer is armed (it is new, or its timer has expired or was
  stopped), \<open>fn\<close> has run at the instants \<open>cs\<close>, and \<open>d.timer\<close> is \<open>nil\<close> or one of its
  timers.
\<close>

definition idle :: "int \<Rightarrow> int list \<Rightarrow> Debouncer \<Rightarrow> bool" where
  "idle d cs st =
     (delay st = d \<and> calls st = cs \<and> (\<forall>x \<in> set (timers st). \<not> t_armed x)
      \<and> (case d_timer st of None \<Rightarrow> True | Some i \<Rightarrow> i < length (timers st)))"

text \<open>
  The state between the triggers of a burst: \<open>fn\<close> has run only at \<open>cs\<close>, the last timer
  made is armed for \<open>t + max 0 d\<close>, \<open>d.timer\<close> points to it, and every older timer is
  disarmed.
\<close>

definition pending_at :: "int \<Rightarrow> int list \<Rightarrow> int \<Rightarrow> Debouncer \<Rightarrow> bool" where
  "pending_at d cs t st =
     (delay st = d \<and> calls st = cs
      \<and> (\<exists>olds. timers st = olds @ [\<lparr>t_when = t + max 0 d, t_armed = True\<rparr>]
            \<and> (\<forall>x \<in> set olds. \<not> t_armed x) \<and> d_timer st = Some (length olds)))"

subsection \<open>Auto-commit engine: commitAndPush\<close>

text \<open>
  The version-control tool is external: \<open>git w dir args\<close> is what running
  \<open>git args\<close> in \<open>dir\<close> does to the world \<open>w\<close>, with its combined output and its
  error (\<open>None\<close> for exit status 0). \<open>runGit\<close> runs it and the trace records the
  invocations in order.
\<close>

type_synonym 'w git = "'w \<Rightarrow> string \<Rightarrow> string list \<Rightarrow> 'w \<times> string \<times> string option"

record 'w git_state =
  world :: 'w
  trace :: "string list list"

definition runGit ::
  "'w git \<Rightarrow> 'w git_state \<Rightarrow> string \<Rightarrow> string list \<Rightarrow> 'w git_state \<times> string \<times> string option" where
  "runGit git st dir args =
     (case git (world st) dir args of
        (w', out, err) \<Rightarrow> (st\<lparr>world := w', trace := trace st @ [args]\<rparr>, out, err))"

text \<open>
  Local wall-clock time and \<open>time.Now().Format("15:04:05")\<close>: hours, minutes and seconds
  in two digits each.
\<close>

record clock =
  hour :: nat
  minute :: nat
  second :: nat

definition two_digits :: "nat \<Rightarrow> string" where
  "two_digits n = [char_of (48 + n div 10 mod 10), char_of (48 + n mod 10)]"

definition Format_150405 :: "clock \<Rightarrow> string" where
  "Format_150405 t = two_digits (hour t) @ '':'' @ two_digits (minute t) @ '':'' @ two_digits (second t)"

text \<open>The argument lists of the four commands and the commit message.\<close>

definition add_args :: "string list" where
  "add_args = [''add'', ''-A'']"

definition diff_args :: "string list" where
  "diff_args = [''diff'', ''--cached'', ''--quiet'']"

definition commit_args :: "string \<Rightarrow> string list" where
  "commit_args msg = [''commit'', ''-m'', msg]"

definition push_args :: "string \<Rightarrow> string list" where
  "push_args branch = [''push'', ''-u'', ''origin'', branch]"

definition commit_message :: "clock \<Rightarrow> string" where
  "commit_message now = ''mob: auto-save at '' @ Format_150405 now"

text \<open>
  \<open>GitOps.commitAndPush\<close>, one run (the mutex \<open>commitMu\<close> lets one run at a time): it
  returns the state, what was logged, and the error (\<open>None\<close> for \<open>nil\<close>).
\<close>

definition commitAndPush ::
  "'w git \<Rightarrow> string \<Rightarrow> string \<Rightarrow> clock \<Rightarrow> 'w git_state
     \<Rightarrow> 'w git_state \<times> log_entry list \<times> string option" where
  "commitAndPush git root branch now st =
     (case runGit git st root add_args of
        (st1, out1, Some err) \<Rightarrow> (st1, [], Some (''git add: '' @ err))
      | (st1, out1, None) \<Rightarrow>
          (case runGit git st1 root diff_args of
             (st2, out2, None) \<Rightarrow> (st2, [], None)
           | (st2, out2, Some changes) \<Rightarrow>
               (let msg = commit_message now
                in case runGit git st2 root (commit_args msg) of
                     (st3, out3, Some err) \<Rightarrow> (st3, [], Some (''git commit: '' @ err))
                   | (st3, out3, None) \<Rightarrow>
                       (case runGit git st3 root (push_args branch) of
                          (st4, out4, Some err) \<Rightarrow>
                            (st4, [(InfoLevel, ''Auto-committed''),
                                   (WarnLevel, ''Push failed (no remote?)'')], None)
                        | (st4, out4, None) \<Rightarrow>
                            (st4, [(InfoLevel, ''Auto-committed'')], None)))))"

text \<open>The commands a run has added to the trace.\<close>

definition ran :: "'w git_state \<Rightarrow> 'w git_state \<Rightarrow> string list list" where
  "ran st st' = drop (length (trace st)) (trace st')"

text \<open>Whether a git command succeeds in a world (exit status 0), and the world it leaves.\<close>

definition git_ok :: "'w git \<Rightarrow> 'w \<Rightarrow> string \<Rightarrow> string list \<Rightarrow> bool" where
  "git_ok git w dir args = (snd (snd (git w dir args)) = None)"

definition git_after :: "'w git \<Rightarrow> 'w \<Rightarrow> string \<Rightarrow> string list \<Rightarrow> 'w" where
  "git_after git w dir args = fst (git w dir args)"

text \<open>A repository where staging finds changes and the commit is refused (a hook, a missing identity).\<close>

definition git_commit_refused :: "unit git" where
  "git_commit_refused w dir args =
     (if args = add_args then (w, [], None)
      else if args = diff_args then (w, [], Some ''exit status 1'')
      else if hd args = ''commit'' then (w, ''hook declined'', Some ''exit status 1'')
      else (w, [], None))"

definition nine_five_seven :: clock where
  "nine_five_seven = \<lparr>hour = 9, minute = 5, second = 7\<rparr>"

definition fresh_git :: "unit git_state" where
  "fresh_git = \<lparr>world = (), trace = []\<rparr>"

text \<open>A repository with changes to commit and no remote to push to.\<close>

definition git_no_remote :: "unit git" where
  "git_no_remote w dir args =
     (if args = add_args then (w, [], None)
      else if args = diff_args then (w, [], Some ''exit status 1'')
      else if hd args = ''push'' then (w, ''fatal: origin does not appear to be a git repository'', Some ''exit status 128'')
      else (w, [], None))"

subsection \<open>FUSE proxy: Statfs\<close>

text \<open>The fields of cgofuse's \<open>fuse.Statfs_t\<close>; all are \<open>uint64\<close>.\<close>

record statfs_t =
  Bsize :: u64
  Frsize :: u64
  Blocks :: u64
  Bfree :: u64
  Bavail :: u64
  Files :: u64
  Ffree :: u64
  Favail :: u64
  Fsid :: u64
  Flag :: u64
  Namemax :: u64

text \<open>
  \<open>RemoteFS.Statfs(path, stat)\<close> writes through the pointer \<open>stat\<close> and returns 0. The
  model returns the status code and the updated structure. \<open>Fsid\<close> and \<open>Flag\<close> are not
  assigned by the source.
\<close>

definition Statfs :: "string \<Rightarrow> statfs_t \<Rightarrow> int \<times> statfs_t" where
  "Statfs path stat =
     (0, stat\<lparr>Bsize := 4096,
              Frsize := 4096,
              Blocks := push_bit 30 1,
              Bfree := push_bit 29 1,
              Bavail := push_bit 29 1,
              Files := push_bit 20 1,
              Ffree := push_bit 19 1,
              Favail := push_bit 19 1,
              Namemax := 255\<rparr>)"

text \<open>Total capacity in bytes that a \<open>statfs_t\<close> advertises: blocks of \<open>Frsize\<close> bytes.\<close>

definition total_capacity :: "statfs_t \<Rightarrow> nat" where
  "total_capacity s = unat (Blocks s) * unat (Frsize s)"

definition TiB :: nat where
  "TiB = 2 ^ 40"

section \<open>Properties\<close>

subsection \<open>C1: the resolver never leaves the workspace root\<close>

lemma path_elems_nonempty: "path_elems xs \<noteq> []"
  by (induction xs) (auto split: list.splits)

lemma path_elems_append_sep:
  "path_elems (a @ Separator # b) = path_elems a @ path_elems b"
  by (induction a) (auto simp: IsPathSeparator_def path_elems_nonempty split: list.splits)

lemma path_elems_no_sep:
  "\<forall>c \<in> set b. \<not> IsPathSeparator c \<Longrightarrow> path_elems b = [b]"
  by (induction b) auto

lemma backtrack_bounds:
  "dotdot \<le> w \<Longrightarrow> dotdot \<le> backtrack buf dotdot w \<and> backtrack buf dotdot w \<le> w"
proof (induction buf dotdot w rule: backtrack.induct)
  case (1 buf dotdot w)
  show ?case
  proof (cases "w > dotdot \<and> \<not> IsPathSeparator (buf ! w)")
    case True
    then have "dotdot \<le> w - 1" by linarith
    with 1 True have "dotdot \<le> backtrack buf dotdot (w - 1) \<and> backtrack buf dotdot (w - 1) \<le> w - 1"
      by blast
    moreover have "backtrack buf dotdot w = backtrack buf dotdot (w - 1)"
      using True by (subst backtrack.simps) simp
    ultimately show ?thesis by linarith
  next
    case False
    then have "backtrack buf dotdot w = w"
      by (subst backtrack.simps) auto
    then show ?thesis using 1 by simp
  qed
qed

lemma backtrack_stops:
  "backtrack buf dotdot w \<le> dotdot \<or> IsPathSeparator (buf ! backtrack buf dotdot w)"
proof (induction buf dotdot w rule: backtrack.induct)
  case (1 buf dotdot w)
  show ?case
  proof (cases "w > dotdot \<and> \<not> IsPathSeparator (buf ! w)")
    case True
    then have "backtrack buf dotdot w = backtrack buf dotdot (w - 1)"
      by (subst backtrack.simps) simp
    then show ?thesis using 1 True by simp
  next
    case False
    then have "backtrack buf dotdot w = w"
      by (subst backtrack.simps) auto
    then show ?thesis using False by auto
  qed
qed

lemma rooted_ok_take:
  assumes "rooted_ok out" "1 \<le> w" "w < length out" "w \<le> 1 \<or> IsPathSeparator (out ! w)"
  shows "rooted_ok (take w out)"
proof (cases "IsPathSeparator (out ! w)")
  case True
  have "out = take w out @ Separator # drop (Suc w) out"
    using True assms(3) id_take_nth_drop [of w out] by (simp add: IsPathSeparator_def)
  then have "path_elems out = path_elems (take w out) @ path_elems (drop (Suc w) out)"
    using path_elems_append_sep by metis
  then show ?thesis
    using assms by (auto simp: rooted_ok_def)
next
  case False
  then have "w = 1" using assms by auto
  moreover have "take 1 out = [Separator]"
    using assms(1) by (cases out) (auto simp: rooted_ok_def)
  ultimately show ?thesis
    by (simp add: rooted_ok_def IsPathSeparator_def Separator_def)
qed

lemma takeWhile_dotdot:
  assumes "takeWhile P rest = [a, b]"
  shows "rest ! 0 = a \<and> rest ! 1 = b \<and> (length rest = 2 \<or> \<not> P (rest ! 2))"
proof -
  obtain x y zs where r: "rest = x # y # zs"
    using assms by (cases rest; cases "tl rest") (auto split: if_splits)
  show ?thesis
    using assms unfolding r by (cases zs) (auto split: if_splits)
qed

lemma rooted_ok_append:
  assumes "rooted_ok out" "elem \<noteq> []" "elem \<noteq> ''..''" "\<forall>c \<in> set elem. \<not> IsPathSeparator c"
  shows "rooted_ok ((if length out \<noteq> 1 then out @ [Separator] else out) @ elem)"
proof (cases "length out = 1")
  case True
  then have "out = [Separator]"
    using assms(1) by (cases out) (auto simp: rooted_ok_def)
  then have "out @ elem = [] @ Separator # elem" by simp
  then have "path_elems (out @ elem) = path_elems [] @ path_elems elem"
    using path_elems_append_sep by metis
  then show ?thesis
    using True assms \<open>out = [Separator]\<close>
    by (auto simp: rooted_ok_def path_elems_no_sep)
next
  case False
  have "path_elems (out @ Separator # elem) = path_elems out @ path_elems elem"
    by (rule path_elems_append_sep)
  then show ?thesis
    using False assms by (auto simp: rooted_ok_def path_elems_no_sep nth_append)
qed

lemma clean_step_rooted:
  assumes "rest \<noteq> []" "rooted_ok out"
  shows "rooted_ok (fst (snd (clean_step True rest out 1))) \<and> snd (snd (clean_step True rest out 1)) = 1"
proof -
  let ?elem = "takeWhile (\<lambda>x. \<not> IsPathSeparator x) rest"
  have bt: "rooted_ok (take (backtrack out 1 (length out - 1)) out)" if "length out > 1"
  proof (rule rooted_ok_take [OF assms(2)])
    have "1 \<le> length out - 1" using that by simp
    from backtrack_bounds [OF this, of out]
    show "1 \<le> backtrack out 1 (length out - 1)" by simp
    have "1 \<le> length out - 1" using that by simp
    from backtrack_bounds [OF this, of out] that
    show "backtrack out 1 (length out - 1) < length out" by linarith
    show "backtrack out 1 (length out - 1) \<le> 1 \<or> IsPathSeparator (out ! backtrack out 1 (length out - 1))"
      by (rule backtrack_stops)
  qed
  have el: "rooted_ok ((if length out \<noteq> 1 then out @ [Separator] else out) @ ?elem)"
    if "\<not> IsPathSeparator (rest ! 0)"
       "\<not> (rest ! 0 = CHR ''.'' \<and> rest ! 1 = CHR ''.'' \<and> (length rest = 2 \<or> IsPathSeparator (rest ! 2)))"
  proof (rule rooted_ok_append [OF assms(2)])
    show "?elem \<noteq> []" using that(1) assms(1) by (cases rest) auto
    show "?elem \<noteq> ''..''" using that(2) takeWhile_dotdot [of "\<lambda>x. \<not> IsPathSeparator x" rest] by auto
    show "\<forall>c \<in> set ?elem. \<not> IsPathSeparator c" by (auto dest: set_takeWhileD)
  qed
  show ?thesis
    unfolding clean_step_def Let_def using bt el assms(2) by auto
qed

lemma clean_loop_rooted:
  "rooted_ok out \<Longrightarrow> rooted_ok (clean_loop True rest out 1)"
proof (induction rest arbitrary: out rule: length_induct)
  case (1 rest)
  show ?case
  proof (cases "rest = []")
    case True
    then show ?thesis using 1 by (simp add: clean_loop.simps)
  next
    case False
    obtain r' o' d' where st: "clean_step True rest out 1 = (r', o', d')"
      by (cases "clean_step True rest out 1") auto
    have "rooted_ok o'" "d' = 1"
      using clean_step_rooted [OF False "1.prems"] st by auto
    moreover have "length r' < length rest"
    proof -
      have "length (dropWhile P rest) < length rest" if "P (rest ! 0)" for P
        using False that by (cases rest) (simp_all add: less_Suc_eq_le length_dropWhile_le)
      then have "length (fst (clean_step True rest out 1)) < length rest"
        unfolding clean_step_def Let_def using False by simp
      then show ?thesis using st by simp
    qed
    ultimately have "rooted_ok (clean_loop True r' o' 1)"
      using "1.IH" by blast
    then show ?thesis
      using False st \<open>d' = 1\<close> by (subst clean_loop.simps) simp
  qed
qed

lemma Clean_rooted:
  assumes "path \<noteq> []" "path ! 0 = Separator"
  shows "rooted_ok (Clean path)"
proof -
  have "rooted_ok [Separator]"
    by (simp add: rooted_ok_def IsPathSeparator_def Separator_def)
  then have "rooted_ok (clean_loop True (drop 1 path) [Separator] 1)"
    by (rule clean_loop_rooted)
  then show ?thesis
    using assms by (auto simp: Clean_def IsPathSeparator_def Let_def rooted_ok_def)
qed

text \<open>
  C1: for an absolute workspace root \<open>R\<close> and any wire path \<open>p\<close> (with or without
  \<open>..\<close> segments), \<open>resolve\<close> either fails with INVALID_ARGUMENT "path escapes
  workspace root", or returns a path \<open>a\<close> with \<open>a = R\<close> or \<open>a\<close> beginning with
  \<open>R\<close> and a separator. The returned path is absolute and has no \<open>..\<close> element left, so it stays
  inside \<open>R\<close>, and it is never \<open>R\<close> followed by anything but a separator: a sibling
  such as \<open>R-secrets\<close> is never returned.
\<close>

theorem resolve_confined:
  assumes "R \<noteq> []" and "R ! 0 = Separator"
  shows "case resolve R p of
           Inl e \<Rightarrow> e = Status InvalidArgument ''path escapes workspace root''
         | Inr a \<Rightarrow> (a = R \<or> prefix (R @ [Separator]) a)
                    \<and> a \<noteq> [] \<and> a ! 0 = Separator
                    \<and> ''..'' \<notin> set (path_elems a)
                    \<and> (\<forall>c s. c \<noteq> Separator \<longrightarrow> a \<noteq> R @ c # s)"
proof -
  let ?abs = "Join [R, Clean (''/'' @ p)]"
  have "?abs = Clean (R @ [Separator] @ Clean (''/'' @ p))"
    using assms(1) by simp
  moreover have "rooted_ok (Clean (R @ [Separator] @ Clean (''/'' @ p)))"
    using assms by (intro Clean_rooted) (auto simp: nth_append)
  ultimately have "rooted_ok ?abs"
    by simp
  then have ok: "?abs \<noteq> []" "?abs ! 0 = Separator" "''..'' \<notin> set (path_elems ?abs)"
    by (simp_all add: rooted_ok_def)
  have sib: "a \<noteq> R @ c # s" if "a = R \<or> prefix (R @ [Separator]) a" "c \<noteq> Separator" for a c s
    using that by (auto simp: prefix_def)
  show ?thesis
    using ok sib unfolding resolve_def Let_def by (auto simp del: Join.simps)
qed

theorem resolve_confined_witness:
  "resolve ''/tmp/app'' ''../app-secrets/key.pem'' = Inr ''/tmp/app/app-secrets/key.pem''
   \<and> ''..'' \<notin> set (path_elems ''/tmp/app/app-secrets/key.pem'')
   \<and> ''/tmp/app/app-secrets/key.pem'' \<noteq> ''/tmp/app-secrets/key.pem''"
proof -
  have r: "resolve ''/tmp/app'' ''../app-secrets/key.pem'' = Inr ''/tmp/app/app-secrets/key.pem''"
    by code_simp
  have "''/tmp/app'' \<noteq> []" "''/tmp/app'' ! 0 = Separator"
    by (simp_all add: Separator_def)
  from resolve_confined [OF this, of "''../app-secrets/key.pem''"] r
  show ?thesis by simp
qed

text \<open>
  The error branch of \<open>resolve\<close> guards a case that does not arise when the root is
  what \<open>filepath.Abs\<close> returns (its own \<open>Clean\<close>, longer than the bare separator):
  cleaning \<open>root/cleaned\<close> first rebuilds the root, and the cleaned request, holding no
  \<open>..\<close>, can only add elements to it.
\<close>

lemma takeWhile_append_boundary:
  assumes "b = [] \<or> IsPathSeparator (b ! 0)"
  shows "takeWhile (\<lambda>x. \<not> IsPathSeparator x) (a @ b) = takeWhile (\<lambda>x. \<not> IsPathSeparator x) a"
proof (cases b)
  case Nil
  then show ?thesis by simp
next
  case (Cons c cs)
  then have "IsPathSeparator c" using assms by simp
  then show ?thesis using Cons by (induction a) auto
qed

lemma dropWhile_append_boundary:
  assumes "b = [] \<or> IsPathSeparator (b ! 0)"
  shows "dropWhile (\<lambda>x. \<not> IsPathSeparator x) (a @ b) = dropWhile (\<lambda>x. \<not> IsPathSeparator x) a @ b"
proof (cases b)
  case Nil
  then show ?thesis by simp
next
  case (Cons c cs)
  then have "IsPathSeparator c" using assms by simp
  then show ?thesis using Cons by (induction a) auto
qed

lemma clean_step_append:
  assumes "a \<noteq> []" and "b = [] \<or> IsPathSeparator (b ! 0)"
  shows "clean_step True (a @ b) out 1 =
           (fst (clean_step True a out 1) @ b, snd (clean_step True a out 1))"
proof -
  obtain x xs where a: "a = x # xs" using assms(1) by (cases a) auto
  have c0: "(a @ b) ! 0 = a ! 0" using a by simp
  have c1: "(length (a @ b) = 1 \<or> IsPathSeparator ((a @ b) ! 1)) = (length a = 1 \<or> IsPathSeparator (a ! 1))"
    using a assms(2) by (cases xs; cases b) auto
  have c2: "((a @ b) ! 1 = CHR ''.'' \<and> (length (a @ b) = 2 \<or> IsPathSeparator ((a @ b) ! 2)))
      = (a ! 1 = CHR ''.'' \<and> (length a = 2 \<or> IsPathSeparator (a ! 2)))"
    if "\<not> (length a = 1 \<or> IsPathSeparator (a ! 1))"
  proof -
    from that a obtain y ys where xs: "xs = y # ys" by (cases xs) auto
    show ?thesis using a xs assms(2) by (cases ys; cases b) auto
  qed
  have d1: "drop 1 (a @ b) = drop 1 a @ b" using a by simp
  have d2: "drop 2 (a @ b) = drop 2 a @ b" if "\<not> (length a = 1 \<or> IsPathSeparator (a ! 1))"
  proof -
    from that a obtain y ys where xs: "xs = y # ys" by (cases xs) auto
    show ?thesis using a xs by simp
  qed
  show ?thesis
    unfolding clean_step_def Let_def c0 c1
      takeWhile_append_boundary [OF assms(2)] dropWhile_append_boundary [OF assms(2)] d1
    using c2 d2 by auto
qed

lemma clean_step_len:
  "rest \<noteq> [] \<Longrightarrow> length (fst (clean_step True rest out 1)) < length rest"
proof -
  assume ne: "rest \<noteq> []"
  have "length (dropWhile P rest) < length rest" if "P (rest ! 0)" for P
    using ne that by (cases rest) (simp_all add: less_Suc_eq_le length_dropWhile_le)
  then show ?thesis
    unfolding clean_step_def Let_def using ne by simp
qed

lemma clean_step_dotdot: "snd (snd (clean_step True rest out 1)) = 1"
  by (simp add: clean_step_def Let_def)

lemma clean_loop_append:
  assumes "b = [] \<or> IsPathSeparator (b ! 0)"
  shows "clean_loop True (a @ b) out 1 = clean_loop True b (clean_loop True a out 1) 1"
proof (induction a arbitrary: out rule: length_induct)
  case (1 a)
  show ?case
  proof (cases "a = []")
    case True
    then show ?thesis by (simp add: clean_loop.simps [of True "[]"])
  next
    case False
    obtain r' o' d' where st: "clean_step True a out 1 = (r', o', d')"
      by (cases "clean_step True a out 1") auto
    have d': "d' = 1" using clean_step_dotdot [of a out] st by simp
    have len: "length r' < length a" using clean_step_len [OF False, of out] st by simp
    have stb: "clean_step True (a @ b) out 1 = (r' @ b, o', 1)"
      using clean_step_append [OF False assms, of out] st d' by simp
    have "clean_loop True (a @ b) out 1 = clean_loop True (r' @ b) o' 1"
      using False stb by (subst clean_loop.simps) simp
    also have "\<dots> = clean_loop True b (clean_loop True r' o' 1) 1"
      using "1.IH" len by blast
    also have "clean_loop True r' o' 1 = clean_loop True a out 1"
      using False st d' by (subst (2) clean_loop.simps) simp
    finally show ?thesis .
  qed
qed

lemma path_elems_drop1:
  "rest \<noteq> [] \<Longrightarrow> IsPathSeparator (rest ! 0) \<Longrightarrow> set (path_elems (drop 1 rest)) \<subseteq> set (path_elems rest)"
  by (cases rest) auto

lemma path_elems_dot:
  assumes "rest \<noteq> []" "rest ! 0 = CHR ''.''" "length rest = 1 \<or> IsPathSeparator (rest ! 1)"
  shows "set (path_elems (drop 1 rest)) \<subseteq> insert [] (set (path_elems rest))"
proof -
  obtain x xs where r: "rest = x # xs" using assms(1) by (cases rest) auto
  show ?thesis
    using assms r by (cases xs) (auto simp: IsPathSeparator_def Separator_def)
qed

lemma path_elems_dotdot:
  assumes "rest ! 0 = CHR ''.''" "rest ! 1 = CHR ''.''" "length rest = 2 \<or> IsPathSeparator (rest ! 2)"
    "\<not> (length rest = 1 \<or> IsPathSeparator (rest ! 1))" "rest \<noteq> []"
  shows "''..'' \<in> set (path_elems rest)"
proof -
  obtain x xs where r: "rest = x # xs" using assms(5) by (cases rest) auto
  obtain y ys where xs: "xs = y # ys" using assms(4) r by (cases xs) auto
  show ?thesis
    using assms r xs by (cases ys) (auto simp: IsPathSeparator_def Separator_def split: list.splits)
qed

lemma path_elems_dropWhile_eq:
  "path_elems (dropWhile (\<lambda>x. \<not> IsPathSeparator x) rest) = [] # tl (path_elems rest)"
  by (induction rest) (auto split: list.splits)

lemma path_elems_dropWhile:
  "set (path_elems (dropWhile (\<lambda>x. \<not> IsPathSeparator x) rest)) \<subseteq> insert [] (set (path_elems rest))"
  unfolding path_elems_dropWhile_eq
  using path_elems_nonempty [of rest] by (cases "path_elems rest") auto

lemma clean_step_extends:
  assumes "rest \<noteq> []" "''..'' \<notin> set (path_elems rest)" "extends R out" "1 < length R"
  shows "extends R (fst (snd (clean_step True rest out 1)))
         \<and> ''..'' \<notin> set (path_elems (fst (clean_step True rest out 1)))"
proof -
  from assms(3) obtain s where s: "out = R @ s" "s = [] \<or> s ! 0 = Separator"
    by (auto simp: extends_def)
  have len: "length out \<noteq> 1" using s assms(4) by simp
  have ext: "extends R (out @ [Separator] @ e)" for e
    unfolding extends_def using s by (intro exI [of _ "s @ [Separator] @ e"]) (auto simp: nth_append)
  have nodd: "\<not> (rest ! 0 = CHR ''.'' \<and> rest ! 1 = CHR ''.'' \<and> (length rest = 2 \<or> IsPathSeparator (rest ! 2)))"
    if "\<not> (rest ! 0 = CHR ''.'' \<and> (length rest = 1 \<or> IsPathSeparator (rest ! 1)))"
    using path_elems_dotdot [of rest] assms(1,2) that by blast
  have e1: "''..'' \<notin> set (path_elems (drop 1 rest))" if "IsPathSeparator (rest ! 0)"
    using path_elems_drop1 [OF assms(1) that] assms(2) by auto
  have e2: "''..'' \<notin> set (path_elems (drop 1 rest))"
    if "rest ! 0 = CHR ''.''" "length rest = 1 \<or> IsPathSeparator (rest ! 1)"
    using path_elems_dot [OF assms(1) that] assms(2) by auto
  have e3: "''..'' \<notin> set (path_elems (dropWhile (\<lambda>x. \<not> IsPathSeparator x) rest))"
    using path_elems_dropWhile [of rest] assms(2) by auto
  show ?thesis
    unfolding clean_step_def Let_def
    using assms(3) len ext nodd e1 e2 e3 by auto
qed

lemma clean_loop_extends:
  assumes "1 < length R"
  shows "''..'' \<notin> set (path_elems rest) \<Longrightarrow> extends R out \<Longrightarrow> extends R (clean_loop True rest out 1)"
proof (induction rest arbitrary: out rule: length_induct)
  case (1 rest)
  show ?case
  proof (cases "rest = []")
    case True
    then show ?thesis using "1.prems" by (simp add: clean_loop.simps)
  next
    case False
    obtain r' o' d' where st: "clean_step True rest out 1 = (r', o', d')"
      by (cases "clean_step True rest out 1") auto
    have d': "d' = 1" using clean_step_dotdot [of rest out] st by simp
    have len: "length r' < length rest" using clean_step_len [OF False, of out] st by simp
    have "extends R o'" "''..'' \<notin> set (path_elems r')"
      using clean_step_extends [OF False "1.prems" assms] st by auto
    then have "extends R (clean_loop True r' o' 1)"
      using "1.IH" len by blast
    then show ?thesis
      using False st d' by (subst clean_loop.simps) simp
  qed
qed

lemma Clean_rooted_unfold:
  assumes "x \<noteq> []" and "x ! 0 = Separator"
  shows "Clean x = (let out = clean_loop True (drop 1 x) [Separator] 1
                    in if out = [] then ''.'' else out)"
  using assms by (simp add: Clean_def Let_def IsPathSeparator_def)

lemma resolve_total:
  assumes "Clean R = R" and "1 < length R" and "R ! 0 = Separator"
  shows "resolve R p = Inr (Join [R, Clean (''/'' @ p)])"
proof -
  define c where "c = Clean (''/'' @ p)"
  have ne: "R \<noteq> []" using assms(2) by auto
  have cok: "rooted_ok c"
    unfolding c_def by (rule Clean_rooted) (simp_all add: Separator_def)
  then have cne: "''..'' \<notin> set (path_elems c)" by (simp add: rooted_ok_def)
  have loopR: "clean_loop True (drop 1 R) [Separator] 1 = R"
    using assms ne Clean_rooted_unfold [OF ne assms(3)]
    by (auto simp: Let_def split: if_splits)
  have dr: "drop 1 (R @ Separator # c) = drop 1 R @ Separator # c"
    using assms(2) by simp
  have "clean_loop True (drop 1 R @ Separator # c) [Separator] 1
          = clean_loop True (Separator # c) (clean_loop True (drop 1 R) [Separator] 1) 1"
    by (rule clean_loop_append) (simp add: IsPathSeparator_def)
  then have lp: "clean_loop True (drop 1 (R @ Separator # c)) [Separator] 1
          = clean_loop True (Separator # c) R 1"
    by (simp only: dr loopR)
  have "''..'' \<notin> set (path_elems (Separator # c))"
    using cne by (simp add: IsPathSeparator_def)
  moreover have "extends R R" by (simp add: extends_def)
  ultimately have ex: "extends R (clean_loop True (Separator # c) R 1)"
    using clean_loop_extends [OF assms(2)] by blast
  then have nonempty: "clean_loop True (Separator # c) R 1 \<noteq> []"
    using ne by (auto simp: extends_def)
  have "Clean (R @ Separator # c) = clean_loop True (Separator # c) R 1"
    using Clean_rooted_unfold [of "R @ Separator # c"] ne assms(3) nonempty
    by (simp only: lp Let_def) (simp add: nth_append)
  then have j: "Join [R, c] = clean_loop True (Separator # c) R 1"
    using ne by simp
  from ex obtain s where s: "Join [R, c] = R @ s" "s = [] \<or> s ! 0 = Separator"
    unfolding j extends_def by blast
  have "Join [R, c] = R \<or> prefix (R @ [Separator]) (Join [R, c])"
  proof (cases s)
    case Nil
    then show ?thesis using s by simp
  next
    case (Cons x xs)
    then have "x = Separator" using s(2) by simp
    then show ?thesis using s(1) Cons by (simp only: prefix_def) auto
  qed
  then show ?thesis
    unfolding resolve_def Let_def c_def [symmetric] by (auto simp del: Join.simps)
qed

lemma resolve_total_example:
  "Clean ''/tmp/app'' = ''/tmp/app'' \<and>
   resolve ''/tmp/app'' ''../../etc/passwd'' = Inr ''/tmp/app/etc/passwd''"
  by code_simp

subsection \<open>Example paths and constants\<close>

lemma resolve_a: "resolve ''/ws'' ''a.txt'' = Inr ''/ws/a.txt''"
  by code_simp

lemma resolve_nope: "resolve ''/ws'' ''nope.txt'' = Inr ''/ws/nope.txt''"
  by code_simp


lemma resolve_locked: "resolve ''/ws'' ''locked'' = Inr ''/ws/locked''"
  by code_simp

lemma resolve_error:
  "resolve root p = Inl st \<Longrightarrow> st = Status InvalidArgument ''path escapes workspace root''"
  by (auto simp: resolve_def Let_def simp del: Join.simps split: if_splits)

lemma sint_maxReadSize: "sint maxReadSize = 1048576"
  by (simp add: maxReadSize_def)

lemma sint_maxbytes_ext4: "sint maxbytes_ext4 = 17592186040320"
  by (simp add: maxbytes_ext4_def)

subsection \<open>C2: the error codec\<close>

lemma resolver_failure_returned:
  assumes "resolve root p = Inl st"
  shows "Stat root os_Lstat p = Inl st"
    and "ReadDir root os_ReadDir p = Inl st"
    and "ReadFile root maxbytes fs \<lparr>rf_Path = p, rf_Offset = off, rf_Length = len\<rparr> = Inl st"
    and "WriteFile root maxbytes fs \<lparr>wf_Path = p, wf_Data = dat, wf_Offset = off, wf_Truncate = tr\<rparr>
           = (fs, Inl st)"
    and "Create root fs p mode = (fs, Inl st)"
    and "Mkdir root os_Mkdir p mode = Inl st"
    and "Remove root os_Remove p = Inl st"
    and "Rename root os_Rename p q = Inl st"
    and "Chmod root os_Chmod p mode = Inl st"
    and "Truncate root os_Truncate p sz = Inl st"
  using assms
  by (simp_all add: Stat_def ReadDir_def ReadFile_def WriteFile_def Create_def Mkdir_def
      Remove_def Rename_def Chmod_def Truncate_def)

lemma os_call_failure_by_table:
  assumes "resolve root p = Inr a"
  shows "os_Lstat a = Inl e \<Longrightarrow> Stat root os_Lstat p = Inl (osErrToStatus e)"
    and "os_ReadDir a = Inl e \<Longrightarrow> ReadDir root os_ReadDir p = Inl (osErrToStatus e)"
    and "os_Mkdir a (if mode = 0 then 493 else mode) = Some e
           \<Longrightarrow> Mkdir root os_Mkdir p mode = Inl (osErrToStatus e)"
    and "os_Remove a = Some e \<Longrightarrow> Remove root os_Remove p = Inl (osErrToStatus e)"
    and "os_Chmod a mode = Some e \<Longrightarrow> Chmod root os_Chmod p mode = Inl (osErrToStatus e)"
    and "os_Truncate a sz = Some e \<Longrightarrow> Truncate root os_Truncate p sz = Inl (osErrToStatus e)"
    and "resolve root q = Inr b \<Longrightarrow> os_Rename a b = Some e
           \<Longrightarrow> Rename root os_Rename p q = Inl (osErrToStatus e)"
    and "resolve root q = Inl st \<Longrightarrow> Rename root os_Rename p q = Inl st"
  using assms
  by (simp_all add: Stat_def ReadDir_def Mkdir_def Remove_def Chmod_def Truncate_def Rename_def
      Let_def)

lemma Create_failure_by_table:
  assumes "resolve root p = Inr a"
    and "snd (os_OpenFile fs a {O_CREATE, O_EXCL, O_WRONLY} (if mode = 0 then 420 else mode)) = Inl e"
  shows "snd (Create root fs p mode) = Inl (osErrToStatus e)"
  using assms
  by (cases "os_OpenFile fs a {O_CREATE, O_EXCL, O_WRONLY} (if mode = 0 then 420 else mode)")
     (simp add: Create_def Let_def)

lemma ReadDir_skips_failed_entries:
  assumes "resolve root p = Inr a" and "os_ReadDir a = Inr entries"
  shows "ReadDir root os_ReadDir p
           = Inr (concat (map (\<lambda>entry. case entry of Inl err \<Rightarrow> []
                                                      | Inr info \<Rightarrow> [fileInfoToProto info]) entries))"
  using assms by (simp add: ReadDir_def)

lemma ReadFile_failures:
  assumes "resolve root (rf_Path req) = Inr a"
  shows "os_Open fs a = Inl e \<Longrightarrow> ReadFile root maxbytes fs req = Inl (osErrToStatus e)"
    and "os_Open fs a = Inr f \<Longrightarrow> 0 < sint (rf_Offset req)
           \<Longrightarrow> File_Seek maxbytes fs f (rf_Offset req) = Inl e
           \<Longrightarrow> ReadFile root maxbytes fs req = Inl (Status Internal (''seek: '' @ error_Error e))"
    and "os_Open fs a = Inr f
           \<Longrightarrow> (if 0 < sint (rf_Offset req) then File_Seek maxbytes fs f (rf_Offset req) else Inr f) = Inr f'
           \<Longrightarrow> File_Read fs f'
                 (replicate (nat (sint (if sint (rf_Length req) \<le> 0 \<or> sint maxReadSize < sint (rf_Length req)
                                        then maxReadSize else rf_Length req))) 0) = (0, buf', Some e)
           \<Longrightarrow> e \<noteq> EOF
           \<Longrightarrow> ReadFile root maxbytes fs req = Inl (osErrToStatus e)"
  using assms by (simp_all add: ReadFile_def Let_def)

lemma WriteFile_failures:
  assumes "resolve root (wf_Path req) = Inr a"
    and "flags = (if wf_Truncate req then {O_WRONLY, O_TRUNC} else {O_WRONLY})"
  shows "os_OpenFile fs a flags 0 = (fs1, Inl e)
           \<Longrightarrow> WriteFile root maxbytes fs req = (fs1, Inl (osErrToStatus e))"
    and "os_OpenFile fs a flags 0 = (fs1, Inr f) \<Longrightarrow> 0 < sint (wf_Offset req)
           \<Longrightarrow> File_Seek maxbytes fs1 f (wf_Offset req) = Inl e
           \<Longrightarrow> WriteFile root maxbytes fs req = (fs1, Inl (Status Internal (''seek: '' @ error_Error e)))"
    and "os_OpenFile fs a flags 0 = (fs1, Inr f)
           \<Longrightarrow> (if 0 < sint (wf_Offset req) then File_Seek maxbytes fs1 f (wf_Offset req) else Inr f) = Inr f'
           \<Longrightarrow> File_Write maxbytes fs1 f' (wf_Data req) = (fs2, Some e)
           \<Longrightarrow> WriteFile root maxbytes fs req = (fs2, Inl (Status Internal (''write: '' @ error_Error e)))"
  using assms by (simp_all add: WriteFile_def Let_def)

lemma osErrToStatus_table:
  "osErrToStatus e =
      Status (if os_IsNotExist e then NotFound else if os_IsPermission e then PermissionDenied
              else if os_IsExist e then AlreadyExists else Internal) (error_Error e)"
  by (simp add: osErrToStatus_def)

lemma error_kinds_exclusive:
  "\<not> (os_IsNotExist e \<and> os_IsPermission e)" "\<not> (os_IsNotExist e \<and> os_IsExist e)"
  "\<not> (os_IsPermission e \<and> os_IsExist e)"
  by (cases e; auto)+

lemma errToFuse_table:
  "fst (errToFuse (Some (StatusError (Status c m))) op path) =
     - errno_number (if c = NotFound then ENOENT else if c = PermissionDenied then EACCES
                     else if c = AlreadyExists then EEXIST else if c = InvalidArgument then EINVAL
                     else EIO)"
  "fst (errToFuse (Some (OtherError m)) op path) = - errno_number EIO"
  by (cases c; simp add: errToFuse_def)+

text \<open>
  C2, as the code has it. The helper \<open>osErrToStatus\<close> maps a not-found error to NOT_FOUND,
  permission-denied to PERMISSION_DENIED, already-exists to ALREADY_EXISTS and every other
  error to INTERNAL, always carrying the error's message. Every handler returns a resolver
  failure as it is, INVALID_ARGUMENT, and passes through the helper the failure of the
  call it makes on the resolved path (Lstat, ReadDir, Mkdir, Remove, Chmod, Truncate,
  Rename, and the open of Create, ReadFile and WriteFile) and, in ReadFile, a read that
  fails other than by end of file with no byte read. A failed seek in ReadFile or
  WriteFile and a failed write in WriteFile do not go through the helper: they answer
  INTERNAL with \<open>seek: \<close> or \<open>write: \<close> before the error's message, whatever the kind of
  the error. ReadDir leaves out an entry whose info cannot be read and reports nothing.
  The client maps NOT_FOUND to ENOENT, PERMISSION_DENIED to EACCES, ALREADY_EXISTS to
  EEXIST, INVALID_ARGUMENT to EINVAL, DEADLINE_EXCEEDED and UNAVAILABLE to EIO, every
  other status code to EIO, and an error that is no RPC status to EIO.
\<close>

theorem error_codec_tables:
  "((os_IsNotExist e \<longrightarrow> osErrToStatus e = Status NotFound (error_Error e))
    \<and> (os_IsPermission e \<longrightarrow> osErrToStatus e = Status PermissionDenied (error_Error e))
    \<and> (os_IsExist e \<longrightarrow> osErrToStatus e = Status AlreadyExists (error_Error e))
    \<and> (\<not> os_IsNotExist e \<and> \<not> os_IsPermission e \<and> \<not> os_IsExist e
         \<longrightarrow> osErrToStatus e = Status Internal (error_Error e)))
   \<and> (resolve root p = Inl st \<longrightarrow>
         st = Status InvalidArgument ''path escapes workspace root''
         \<and> Stat root os_Lstat p = Inl st
         \<and> ReadDir root os_ReadDir p = Inl st
         \<and> ReadFile root maxbytes fs \<lparr>rf_Path = p, rf_Offset = off, rf_Length = len\<rparr> = Inl st
         \<and> WriteFile root maxbytes fs
              \<lparr>wf_Path = p, wf_Data = dat, wf_Offset = off, wf_Truncate = tr\<rparr> = (fs, Inl st)
         \<and> Create root fs p mode = (fs, Inl st)
         \<and> Mkdir root os_Mkdir p mode = Inl st
         \<and> Remove root os_Remove p = Inl st
         \<and> Rename root os_Rename p q = Inl st
         \<and> Chmod root os_Chmod p mode = Inl st
         \<and> Truncate root os_Truncate p sz = Inl st)
   \<and> (resolve root p = Inr a \<longrightarrow>
         (os_Lstat a = Inl e \<longrightarrow> Stat root os_Lstat p = Inl (osErrToStatus e))
         \<and> (os_ReadDir a = Inl e \<longrightarrow> ReadDir root os_ReadDir p = Inl (osErrToStatus e))
         \<and> (os_ReadDir a = Inr entries \<longrightarrow>
              ReadDir root os_ReadDir p
                = Inr (concat (map (\<lambda>entry. case entry of Inl err \<Rightarrow> []
                                                           | Inr info \<Rightarrow> [fileInfoToProto info]) entries)))
         \<and> (os_Mkdir a (if mode = 0 then 493 else mode) = Some e
              \<longrightarrow> Mkdir root os_Mkdir p mode = Inl (osErrToStatus e))
         \<and> (os_Remove a = Some e \<longrightarrow> Remove root os_Remove p = Inl (osErrToStatus e))
         \<and> (os_Chmod a mode = Some e \<longrightarrow> Chmod root os_Chmod p mode = Inl (osErrToStatus e))
         \<and> (os_Truncate a sz = Some e \<longrightarrow> Truncate root os_Truncate p sz = Inl (osErrToStatus e))
         \<and> (resolve root q = Inr b \<and> os_Rename a b = Some e
              \<longrightarrow> Rename root os_Rename p q = Inl (osErrToStatus e))
         \<and> (resolve root q = Inl st \<longrightarrow> Rename root os_Rename p q = Inl st)
         \<and> (snd (os_OpenFile fs a {O_CREATE, O_EXCL, O_WRONLY} (if mode = 0 then 420 else mode)) = Inl e
              \<longrightarrow> snd (Create root fs p mode) = Inl (osErrToStatus e)))
   \<and> (resolve root (rf_Path rreq) = Inr a \<longrightarrow>
         (os_Open fs a = Inl e \<longrightarrow> ReadFile root maxbytes fs rreq = Inl (osErrToStatus e))
         \<and> (os_Open fs a = Inr f \<and> 0 < sint (rf_Offset rreq)
              \<and> File_Seek maxbytes fs f (rf_Offset rreq) = Inl e
              \<longrightarrow> ReadFile root maxbytes fs rreq = Inl (Status Internal (''seek: '' @ error_Error e)))
         \<and> (os_Open fs a = Inr f
              \<and> (if 0 < sint (rf_Offset rreq) then File_Seek maxbytes fs f (rf_Offset rreq) else Inr f)
                  = Inr f'
              \<and> File_Read fs f'
                  (replicate (nat (sint (if sint (rf_Length rreq) \<le> 0
                                              \<or> sint maxReadSize < sint (rf_Length rreq)
                                         then maxReadSize else rf_Length rreq))) 0) = (0, buf', Some e)
              \<and> e \<noteq> EOF
              \<longrightarrow> ReadFile root maxbytes fs rreq = Inl (osErrToStatus e)))
   \<and> (resolve root (wf_Path wreq) = Inr a \<longrightarrow>
         (os_OpenFile fs a (if wf_Truncate wreq then {O_WRONLY, O_TRUNC} else {O_WRONLY}) 0 = (fs1, Inl e)
              \<longrightarrow> WriteFile root maxbytes fs wreq = (fs1, Inl (osErrToStatus e)))
         \<and> (os_OpenFile fs a (if wf_Truncate wreq then {O_WRONLY, O_TRUNC} else {O_WRONLY}) 0 = (fs1, Inr f)
              \<and> 0 < sint (wf_Offset wreq) \<and> File_Seek maxbytes fs1 f (wf_Offset wreq) = Inl e
              \<longrightarrow> WriteFile root maxbytes fs wreq
                    = (fs1, Inl (Status Internal (''seek: '' @ error_Error e))))
         \<and> (os_OpenFile fs a (if wf_Truncate wreq then {O_WRONLY, O_TRUNC} else {O_WRONLY}) 0 = (fs1, Inr f)
              \<and> (if 0 < sint (wf_Offset wreq) then File_Seek maxbytes fs1 f (wf_Offset wreq) else Inr f)
                  = Inr f'
              \<and> File_Write maxbytes fs1 f' (wf_Data wreq) = (fs2, Some e)
              \<longrightarrow> WriteFile root maxbytes fs wreq
                    = (fs2, Inl (Status Internal (''write: '' @ error_Error e)))))
   \<and> (fst (errToFuse (Some (StatusError (Status NotFound m))) op path) = - errno_number ENOENT
      \<and> fst (errToFuse (Some (StatusError (Status PermissionDenied m))) op path) = - errno_number EACCES
      \<and> fst (errToFuse (Some (StatusError (Status AlreadyExists m))) op path) = - errno_number EEXIST
      \<and> fst (errToFuse (Some (StatusError (Status InvalidArgument m))) op path) = - errno_number EINVAL
      \<and> fst (errToFuse (Some (StatusError (Status DeadlineExceeded m))) op path) = - errno_number EIO
      \<and> fst (errToFuse (Some (StatusError (Status Unavailable m))) op path) = - errno_number EIO
      \<and> (c \<noteq> NotFound \<and> c \<noteq> PermissionDenied \<and> c \<noteq> AlreadyExists \<and> c \<noteq> InvalidArgument
           \<longrightarrow> fst (errToFuse (Some (StatusError (Status c m))) op path) = - errno_number EIO)
      \<and> fst (errToFuse (Some (OtherError m)) op path) = - errno_number EIO)"
proof (intro conjI)
  show "os_IsNotExist e \<longrightarrow> osErrToStatus e = Status NotFound (error_Error e)"
    by (simp add: osErrToStatus_table)
  show "os_IsPermission e \<longrightarrow> osErrToStatus e = Status PermissionDenied (error_Error e)"
    using error_kinds_exclusive(1) [of e] by (auto simp: osErrToStatus_table)
  show "os_IsExist e \<longrightarrow> osErrToStatus e = Status AlreadyExists (error_Error e)"
    using error_kinds_exclusive(2,3) [of e] by (auto simp: osErrToStatus_table)
  show "\<not> os_IsNotExist e \<and> \<not> os_IsPermission e \<and> \<not> os_IsExist e
         \<longrightarrow> osErrToStatus e = Status Internal (error_Error e)"
    by (simp add: osErrToStatus_table)
  show "resolve root p = Inl st \<longrightarrow>
         st = Status InvalidArgument ''path escapes workspace root''
         \<and> Stat root os_Lstat p = Inl st
         \<and> ReadDir root os_ReadDir p = Inl st
         \<and> ReadFile root maxbytes fs \<lparr>rf_Path = p, rf_Offset = off, rf_Length = len\<rparr> = Inl st
         \<and> WriteFile root maxbytes fs
              \<lparr>wf_Path = p, wf_Data = dat, wf_Offset = off, wf_Truncate = tr\<rparr> = (fs, Inl st)
         \<and> Create root fs p mode = (fs, Inl st)
         \<and> Mkdir root os_Mkdir p mode = Inl st
         \<and> Remove root os_Remove p = Inl st
         \<and> Rename root os_Rename p q = Inl st
         \<and> Chmod root os_Chmod p mode = Inl st
         \<and> Truncate root os_Truncate p sz = Inl st"
  proof
    assume r: "resolve root p = Inl st"
    show "st = Status InvalidArgument ''path escapes workspace root''
         \<and> Stat root os_Lstat p = Inl st
         \<and> ReadDir root os_ReadDir p = Inl st
         \<and> ReadFile root maxbytes fs \<lparr>rf_Path = p, rf_Offset = off, rf_Length = len\<rparr> = Inl st
         \<and> WriteFile root maxbytes fs
              \<lparr>wf_Path = p, wf_Data = dat, wf_Offset = off, wf_Truncate = tr\<rparr> = (fs, Inl st)
         \<and> Create root fs p mode = (fs, Inl st)
         \<and> Mkdir root os_Mkdir p mode = Inl st
         \<and> Remove root os_Remove p = Inl st
         \<and> Rename root os_Rename p q = Inl st
         \<and> Chmod root os_Chmod p mode = Inl st
         \<and> Truncate root os_Truncate p sz = Inl st"
      using resolve_error [OF r] resolver_failure_returned [OF r] by simp
  qed
  show "resolve root p = Inr a \<longrightarrow>
         (os_Lstat a = Inl e \<longrightarrow> Stat root os_Lstat p = Inl (osErrToStatus e))
         \<and> (os_ReadDir a = Inl e \<longrightarrow> ReadDir root os_ReadDir p = Inl (osErrToStatus e))
         \<and> (os_ReadDir a = Inr entries \<longrightarrow>
              ReadDir root os_ReadDir p
                = Inr (concat (map (\<lambda>entry. case entry of Inl err \<Rightarrow> []
                                                           | Inr info \<Rightarrow> [fileInfoToProto info]) entries)))
         \<and> (os_Mkdir a (if mode = 0 then 493 else mode) = Some e
              \<longrightarrow> Mkdir root os_Mkdir p mode = Inl (osErrToStatus e))
         \<and> (os_Remove a = Some e \<longrightarrow> Remove root os_Remove p = Inl (osErrToStatus e))
         \<and> (os_Chmod a mode = Some e \<longrightarrow> Chmod root os_Chmod p mode = Inl (osErrToStatus e))
         \<and> (os_Truncate a sz = Some e \<longrightarrow> Truncate root os_Truncate p sz = Inl (osErrToStatus e))
         \<and> (resolve root q = Inr b \<and> os_Rename a b = Some e
              \<longrightarrow> Rename root os_Rename p q = Inl (osErrToStatus e))
         \<and> (resolve root q = Inl st \<longrightarrow> Rename root os_Rename p q = Inl st)
         \<and> (snd (os_OpenFile fs a {O_CREATE, O_EXCL, O_WRONLY} (if mode = 0 then 420 else mode)) = Inl e
              \<longrightarrow> snd (Create root fs p mode) = Inl (osErrToStatus e))"
  proof
    assume r: "resolve root p = Inr a"
    show "(os_Lstat a = Inl e \<longrightarrow> Stat root os_Lstat p = Inl (osErrToStatus e))
         \<and> (os_ReadDir a = Inl e \<longrightarrow> ReadDir root os_ReadDir p = Inl (osErrToStatus e))
         \<and> (os_ReadDir a = Inr entries \<longrightarrow>
              ReadDir root os_ReadDir p
                = Inr (concat (map (\<lambda>entry. case entry of Inl err \<Rightarrow> []
                                                           | Inr info \<Rightarrow> [fileInfoToProto info]) entries)))
         \<and> (os_Mkdir a (if mode = 0 then 493 else mode) = Some e
              \<longrightarrow> Mkdir root os_Mkdir p mode = Inl (osErrToStatus e))
         \<and> (os_Remove a = Some e \<longrightarrow> Remove root os_Remove p = Inl (osErrToStatus e))
         \<and> (os_Chmod a mode = Some e \<longrightarrow> Chmod root os_Chmod p mode = Inl (osErrToStatus e))
         \<and> (os_Truncate a sz = Some e \<longrightarrow> Truncate root os_Truncate p sz = Inl (osErrToStatus e))
         \<and> (resolve root q = Inr b \<and> os_Rename a b = Some e
              \<longrightarrow> Rename root os_Rename p q = Inl (osErrToStatus e))
         \<and> (resolve root q = Inl st \<longrightarrow> Rename root os_Rename p q = Inl st)
         \<and> (snd (os_OpenFile fs a {O_CREATE, O_EXCL, O_WRONLY} (if mode = 0 then 420 else mode)) = Inl e
              \<longrightarrow> snd (Create root fs p mode) = Inl (osErrToStatus e))"
      using os_call_failure_by_table [OF r] ReadDir_skips_failed_entries [OF r]
        Create_failure_by_table [OF r]
      by (intro conjI impI) (simp_all del: split_paired_All)
  qed
  show "resolve root (rf_Path rreq) = Inr a \<longrightarrow>
         (os_Open fs a = Inl e \<longrightarrow> ReadFile root maxbytes fs rreq = Inl (osErrToStatus e))
         \<and> (os_Open fs a = Inr f \<and> 0 < sint (rf_Offset rreq)
              \<and> File_Seek maxbytes fs f (rf_Offset rreq) = Inl e
              \<longrightarrow> ReadFile root maxbytes fs rreq = Inl (Status Internal (''seek: '' @ error_Error e)))
         \<and> (os_Open fs a = Inr f
              \<and> (if 0 < sint (rf_Offset rreq) then File_Seek maxbytes fs f (rf_Offset rreq) else Inr f)
                  = Inr f'
              \<and> File_Read fs f'
                  (replicate (nat (sint (if sint (rf_Length rreq) \<le> 0
                                              \<or> sint maxReadSize < sint (rf_Length rreq)
                                         then maxReadSize else rf_Length rreq))) 0) = (0, buf', Some e)
              \<and> e \<noteq> EOF
              \<longrightarrow> ReadFile root maxbytes fs rreq = Inl (osErrToStatus e))"
    using ReadFile_failures [of root rreq a] by (intro conjI impI) (simp_all)
  show "resolve root (wf_Path wreq) = Inr a \<longrightarrow>
         (os_OpenFile fs a (if wf_Truncate wreq then {O_WRONLY, O_TRUNC} else {O_WRONLY}) 0 = (fs1, Inl e)
              \<longrightarrow> WriteFile root maxbytes fs wreq = (fs1, Inl (osErrToStatus e)))
         \<and> (os_OpenFile fs a (if wf_Truncate wreq then {O_WRONLY, O_TRUNC} else {O_WRONLY}) 0 = (fs1, Inr f)
              \<and> 0 < sint (wf_Offset wreq) \<and> File_Seek maxbytes fs1 f (wf_Offset wreq) = Inl e
              \<longrightarrow> WriteFile root maxbytes fs wreq
                    = (fs1, Inl (Status Internal (''seek: '' @ error_Error e))))
         \<and> (os_OpenFile fs a (if wf_Truncate wreq then {O_WRONLY, O_TRUNC} else {O_WRONLY}) 0 = (fs1, Inr f)
              \<and> (if 0 < sint (wf_Offset wreq) then File_Seek maxbytes fs1 f (wf_Offset wreq) else Inr f)
                  = Inr f'
              \<and> File_Write maxbytes fs1 f' (wf_Data wreq) = (fs2, Some e)
              \<longrightarrow> WriteFile root maxbytes fs wreq
                    = (fs2, Inl (Status Internal (''write: '' @ error_Error e))))"
    using WriteFile_failures [of root wreq a, OF _ refl] by (intro conjI impI) (simp_all)
  show "fst (errToFuse (Some (StatusError (Status NotFound m))) op path) = - errno_number ENOENT"
    "fst (errToFuse (Some (StatusError (Status PermissionDenied m))) op path) = - errno_number EACCES"
    "fst (errToFuse (Some (StatusError (Status AlreadyExists m))) op path) = - errno_number EEXIST"
    "fst (errToFuse (Some (StatusError (Status InvalidArgument m))) op path) = - errno_number EINVAL"
    "fst (errToFuse (Some (StatusError (Status DeadlineExceeded m))) op path) = - errno_number EIO"
    "fst (errToFuse (Some (StatusError (Status Unavailable m))) op path) = - errno_number EIO"
    "c \<noteq> NotFound \<and> c \<noteq> PermissionDenied \<and> c \<noteq> AlreadyExists \<and> c \<noteq> InvalidArgument
           \<longrightarrow> fst (errToFuse (Some (StatusError (Status c m))) op path) = - errno_number EIO"
    "fst (errToFuse (Some (OtherError m)) op path) = - errno_number EIO"
    by (simp_all add: errToFuse_table)
qed

theorem error_codec_tables_witness:
  "osErrToStatus (PathError ''open'' ''/ws/secret'' EACCES)
     = Status PermissionDenied ''open /ws/secret: permission denied''
   \<and> osErrToStatus (LinkError ''rename'' ''/ws/a'' ''/ws/d'' ENOTEMPTY)
     = Status AlreadyExists ''rename /ws/a /ws/d: directory not empty''
   \<and> Stat ''/ws'' (\<lambda>q. Inl (PathError ''lstat'' q ENOENT)) ''nope.txt''
     = Inl (Status NotFound ''lstat /ws/nope.txt: no such file or directory'')
   \<and> Remove ''/tmp/app/'' (\<lambda>q. None) ''x''
     = Inl (Status InvalidArgument ''path escapes workspace root'')
   \<and> ReadFile ''/ws'' maxbytes_ext4 fs0 \<lparr>rf_Path = ''/'', rf_Offset = 0, rf_Length = 1\<rparr>
     = Inl (Status Internal ''read /ws: is a directory'')
   \<and> WriteFile ''/ws'' maxbytes_ext4 fs0
       \<lparr>wf_Path = ''a.txt'', wf_Data = [1], wf_Offset = 17592186044416, wf_Truncate = False\<rparr>
     = (fs0, Inl (Status Internal ''seek: seek /ws/a.txt: invalid argument''))
   \<and> WriteFile ''/ws'' maxbytes_ext4 fs0
       \<lparr>wf_Path = ''a.txt'', wf_Data = [1], wf_Offset = 17592186040320, wf_Truncate = False\<rparr>
     = (fs0, Inl (Status Internal ''write: write /ws/a.txt: file too large''))
   \<and> fst (errToFuse (Some (StatusError (Status Internal ''boom''))) ''Read'' ''/x'') = - 5"
proof -
  have ow: "os_OpenFile fs0 ''/ws/a.txt'' {O_WRONLY} 0 = (fs0, Inr \<lparr>f_name = ''/ws/a.txt'', f_offset = 0\<rparr>)"
    by (simp add: os_OpenFile_def fs0_def)
  have sk1: "File_Seek maxbytes_ext4 fs0 \<lparr>f_name = ''/ws/a.txt'', f_offset = 0\<rparr> 17592186044416
      = Inl (PathError ''seek'' ''/ws/a.txt'' EINVAL)"
    by (simp add: File_Seek_def fs0_def sint_maxbytes_ext4)
  have sk2: "File_Seek maxbytes_ext4 fs0 \<lparr>f_name = ''/ws/a.txt'', f_offset = 0\<rparr> 17592186040320
      = Inr \<lparr>f_name = ''/ws/a.txt'', f_offset = 17592186040320\<rparr>"
    by (simp add: File_Seek_def fs0_def sint_maxbytes_ext4)
  have wr: "File_Write maxbytes_ext4 fs0 \<lparr>f_name = ''/ws/a.txt'', f_offset = 17592186040320\<rparr> [1]
      = (fs0, Some (PathError ''write'' ''/ws/a.txt'' EFBIG))"
    by (simp add: File_Write_def fs0_def sint_maxbytes_ext4)
  have r1: "resolve ''/tmp/app/'' ''x'' = Inl (Status InvalidArgument ''path escapes workspace root'')"
    by code_simp
  have r2: "resolve ''/ws'' ''/'' = Inr ''/ws''"
    by code_simp
  have o: "os_Open fs0 ''/ws'' = Inr \<lparr>f_name = ''/ws'', f_offset = 0\<rparr>"
    by (simp add: os_Open_def os_OpenFile_def fs0_def)
  have rd: "File_Read fs0 \<lparr>f_name = ''/ws'', f_offset = 0\<rparr> [0]
              = (0, [0], Some (PathError ''read'' ''/ws'' EISDIR))"
    by (simp add: File_Read_def fs0_def)
  have A: "osErrToStatus (PathError ''open'' ''/ws/secret'' EACCES)
      = Status PermissionDenied ''open /ws/secret: permission denied''"
    using error_codec_tables [where e = "PathError ''open'' ''/ws/secret'' EACCES"] by simp
  have B: "osErrToStatus (LinkError ''rename'' ''/ws/a'' ''/ws/d'' ENOTEMPTY)
      = Status AlreadyExists ''rename /ws/a /ws/d: directory not empty''"
    using error_codec_tables [where e = "LinkError ''rename'' ''/ws/a'' ''/ws/d'' ENOTEMPTY"] by simp
  have C: "Stat ''/ws'' (\<lambda>q. Inl (PathError ''lstat'' q ENOENT)) ''nope.txt''
      = Inl (Status NotFound ''lstat /ws/nope.txt: no such file or directory'')"
    using error_codec_tables [where root = "''/ws''" and p = "''nope.txt''" and a = "''/ws/nope.txt''"
        and os_Lstat = "\<lambda>q. Inl (PathError ''lstat'' q ENOENT)"
        and e = "PathError ''lstat'' ''/ws/nope.txt'' ENOENT"] resolve_nope
    by simp
  have D: "Remove ''/tmp/app/'' (\<lambda>q. None) ''x''
      = Inl (Status InvalidArgument ''path escapes workspace root'')"
    using error_codec_tables [where root = "''/tmp/app/''" and p = "''x''"
        and st = "Status InvalidArgument ''path escapes workspace root''"
        and os_Remove = "\<lambda>q. None"] r1
    by simp
  have E: "ReadFile ''/ws'' maxbytes_ext4 fs0 \<lparr>rf_Path = ''/'', rf_Offset = 0, rf_Length = 1\<rparr>
      = Inl (Status Internal ''read /ws: is a directory'')"
    using error_codec_tables [where root = "''/ws''" and maxbytes = maxbytes_ext4 and fs = fs0
        and rreq = "\<lparr>rf_Path = ''/'', rf_Offset = 0, rf_Length = 1\<rparr>" and a = "''/ws''"
        and f = "\<lparr>f_name = ''/ws'', f_offset = 0\<rparr>" and f' = "\<lparr>f_name = ''/ws'', f_offset = 0\<rparr>"
        and buf' = "[0]" and e = "PathError ''read'' ''/ws'' EISDIR"] r2 o rd
    by (simp add: sint_maxReadSize)
  have F: "fst (errToFuse (Some (StatusError (Status Internal ''boom''))) ''Read'' ''/x'') = - 5"
    using error_codec_tables [where c = Internal and m = "''boom''" and op = "''Read''"
        and path = "''/x''"]
    by simp
  have G: "WriteFile ''/ws'' maxbytes_ext4 fs0
       \<lparr>wf_Path = ''a.txt'', wf_Data = [1], wf_Offset = 17592186044416, wf_Truncate = False\<rparr>
     = (fs0, Inl (Status Internal ''seek: seek /ws/a.txt: invalid argument''))"
    using error_codec_tables [where root = "''/ws''" and maxbytes = maxbytes_ext4 and fs = fs0
        and wreq = "\<lparr>wf_Path = ''a.txt'', wf_Data = [1], wf_Offset = 17592186044416,
                      wf_Truncate = False\<rparr>"
        and a = "''/ws/a.txt''" and ?fs1.0 = fs0 and f = "\<lparr>f_name = ''/ws/a.txt'', f_offset = 0\<rparr>"
        and e = "PathError ''seek'' ''/ws/a.txt'' EINVAL"] resolve_a ow sk1
    by simp
  have H: "WriteFile ''/ws'' maxbytes_ext4 fs0
       \<lparr>wf_Path = ''a.txt'', wf_Data = [1], wf_Offset = 17592186040320, wf_Truncate = False\<rparr>
     = (fs0, Inl (Status Internal ''write: write /ws/a.txt: file too large''))"
    using error_codec_tables [where root = "''/ws''" and maxbytes = maxbytes_ext4 and fs = fs0
        and wreq = "\<lparr>wf_Path = ''a.txt'', wf_Data = [1], wf_Offset = 17592186040320,
                      wf_Truncate = False\<rparr>"
        and a = "''/ws/a.txt''" and ?fs1.0 = fs0 and ?fs2.0 = fs0
        and f = "\<lparr>f_name = ''/ws/a.txt'', f_offset = 0\<rparr>"
        and f' = "\<lparr>f_name = ''/ws/a.txt'', f_offset = 17592186040320\<rparr>"
        and e = "PathError ''write'' ''/ws/a.txt'' EFBIG"] resolve_a ow sk2 wr
    by simp
  from A B C D E F G H show ?thesis by blast
qed

text \<open>
  C2 as stated fails on the host: a failure that is a permission-denied error is answered
  with INTERNAL when it comes from the write of WriteFile. The file \<open>locked\<close> opens for
  writing; the write is refused with EPERM.
\<close>

theorem write_failure_not_by_table:
  "os_IsPermission (PathError ''write'' ''/ws/locked'' EPERM)
   \<and> WriteFile ''/ws'' maxbytes_ext4 fs_host
        \<lparr>wf_Path = ''locked'', wf_Data = [1], wf_Offset = 0, wf_Truncate = False\<rparr>
       = (fs_host, Inl (Status Internal ''write: write /ws/locked: operation not permitted''))
   \<and> status_Code (Status Internal ''write: write /ws/locked: operation not permitted'')
       \<noteq> PermissionDenied"
  by (simp add: WriteFile_def resolve_locked os_OpenFile_def File_Write_def fs_host_def fs0_def Let_def)

subsection \<open>C3: metadata round trip\<close>

lemmas mode_defs = ModeDir_def ModeSymlink_def ModeDevice_def ModeNamedPipe_def ModeSocket_def
  ModeSetuid_def ModeSetgid_def ModeCharDevice_def ModeSticky_def ModePerm_def
  S_IFMT_def S_IFSOCK_def S_IFLNK_def S_IFREG_def S_IFBLK_def S_IFDIR_def S_IFCHR_def S_IFIFO_def
  S_ISUID_def S_ISGID_def S_ISVTX_def

lemma and_dist: "(a OR b) AND (c::u32) = (a AND c) OR (b AND c)"
  by (simp add: bit.conj_disj_distrib2)

lemma perm_and: "(x AND (511::u32)) AND c = x AND (511 AND c)"
  by (simp add: and.assoc)

lemma sys_perm: "fileModeFromSys st AND ModePerm = st AND 511"
  by (simp add: fileModeFromSys_def mode_defs Let_def and_dist perm_and)

lemma sys_setuid: "(fileModeFromSys st AND ModeSetuid \<noteq> 0) = (st AND 2048 \<noteq> 0)"
  by (simp add: fileModeFromSys_def mode_defs Let_def and_dist perm_and)

lemma sys_setgid: "(fileModeFromSys st AND ModeSetgid \<noteq> 0) = (st AND 1024 \<noteq> 0)"
  by (simp add: fileModeFromSys_def mode_defs Let_def and_dist perm_and)

lemma sys_sticky: "(fileModeFromSys st AND ModeSticky \<noteq> 0) = (st AND 512 \<noteq> 0)"
  by (simp add: fileModeFromSys_def mode_defs Let_def and_dist perm_and)

lemma sys_dir: "FileMode_IsDir (fileModeFromSys st) = (st AND S_IFMT = S_IFDIR)"
  by (simp add: FileMode_IsDir_def fileModeFromSys_def mode_defs Let_def and_dist perm_and)

lemma sys_symlink: "(fileModeFromSys st AND ModeSymlink \<noteq> 0) = (st AND S_IFMT = S_IFLNK)"
  by (simp add: fileModeFromSys_def mode_defs Let_def and_dist perm_and)

lemma sys_pipe: "(fileModeFromSys st AND ModeNamedPipe \<noteq> 0) = (st AND S_IFMT = S_IFIFO)"
  by (simp add: fileModeFromSys_def mode_defs Let_def and_dist perm_and)

lemma sys_socket: "(fileModeFromSys st AND ModeSocket \<noteq> 0) = (st AND S_IFMT = S_IFSOCK)"
  by (simp add: fileModeFromSys_def mode_defs Let_def and_dist perm_and)

lemma sys_device:
  "(fileModeFromSys st AND ModeDevice \<noteq> 0) = (st AND S_IFMT = S_IFCHR \<or> st AND S_IFMT = S_IFBLK)"
  by (simp add: fileModeFromSys_def mode_defs Let_def and_dist perm_and)

lemma sys_chardev: "(fileModeFromSys st AND ModeCharDevice \<noteq> 0) = (st AND S_IFMT = S_IFCHR)"
  by (simp add: fileModeFromSys_def mode_defs Let_def and_dist perm_and)

lemmas sys_tests = sys_setuid sys_setgid sys_sticky sys_dir sys_symlink sys_pipe sys_socket
  sys_device sys_chardev


lemma and_single_bit: "(x::u32) AND 2 ^ n = (if bit x n then 2 ^ n else 0)"
  by (rule bit_eqI) (auto simp: bit_simps)

lemma if_single_bit:
  "(if (x::u32) AND 2 ^ n \<noteq> 0 then y OR 2 ^ n else y) = y OR (x AND 2 ^ n)"
  by (simp add: and_single_bit)

lemma if_2048: "(if (x::u32) AND 2048 \<noteq> 0 then y OR 2048 else y) = y OR (x AND 2048)"
proof -
  have e: "(2048::u32) = 2 ^ 11" by simp
  show ?thesis unfolding e by (rule if_single_bit)
qed

lemma if_1024: "(if (x::u32) AND 1024 \<noteq> 0 then y OR 1024 else y) = y OR (x AND 1024)"
proof -
  have e: "(1024::u32) = 2 ^ 10" by simp
  show ?thesis unfolding e by (rule if_single_bit)
qed

lemma if_512: "(if (x::u32) AND 512 \<noteq> 0 then y OR 512 else y) = y OR (x AND 512)"
proof -
  have e: "(512::u32) = 2 ^ 9" by simp
  show ?thesis unfolding e by (rule if_single_bit)
qed

lemma and_or_mask: "((x::u32) AND a) OR (x AND b) = x AND (a OR b)"
  by (simp add: bit.conj_disj_distrib)

lemma goModeToUnix_sys:
  "goModeToUnix (fileModeFromSys st) =
     (st AND 4095) OR
       (if st AND S_IFMT = S_IFDIR then 16384
        else if st AND S_IFMT = S_IFLNK then 40960
        else if st AND S_IFMT = S_IFIFO then 4096
        else if st AND S_IFMT = S_IFSOCK then 49152
        else if st AND S_IFMT = S_IFCHR then 8192
        else if st AND S_IFMT = S_IFBLK then 24576
        else 32768)"
proof -
  have m: "((((st AND 511) OR (st AND 2048)) OR (st AND 1024)) OR (st AND 512)) = st AND 4095"
    by (simp add: and_or_mask)
  show ?thesis
    unfolding goModeToUnix_def Let_def FileMode_Perm_def sys_tests sys_perm if_2048 if_1024 if_512 m
    by (simp add: mode_defs)
qed

lemma mode_roundtrip:
  assumes "valid_file_type st"
  shows "goModeToUnix (fileModeFromSys st) = st AND 65535"
proof -
  have "st AND 65535 = (st AND 4095) OR (st AND 61440)"
    by (simp add: and_or_mask)
  then show ?thesis
    using assms unfolding goModeToUnix_sys valid_file_type_def
    by (auto simp: mode_defs)
qed

lemma mode_type_bits:
  assumes "valid_file_type st"
  shows "goModeToUnix (fileModeFromSys st) AND S_IFMT = st AND S_IFMT"
  unfolding mode_roundtrip [OF assms] by (simp add: S_IFMT_def and.assoc)


lemma sint_add_511:
  assumes "0 < sint (x::i64)" "sint x \<le> 2 ^ 63 - 512"
  shows "sint (x + 511) = sint x + 511"
proof -
  have "sint (x + 511) = signed_take_bit 63 (sint x + sint (511::i64))"
    by (simp add: sint_word_ariths)
  also have "sint (511::i64) = 511" by simp
  also have "signed_take_bit 63 (sint x + 511) = sint x + 511"
    using assms by (intro signed_take_bit_int_eq_self) auto
  finally show ?thesis .
qed

lemma div_512_bounds:
  assumes "0 \<le> (y::int)"
  shows "0 \<le> y div 512 \<and> y div 512 \<le> y"
proof -
  define q where "q = y div 512"
  define r where "r = y mod 512"
  have "y = 512 * q + r" by (simp add: q_def r_def)
  moreover have "0 \<le> r" by (simp add: r_def)
  moreover have "0 \<le> q" using assms by (simp add: q_def pos_imp_zdiv_nonneg_iff)
  ultimately have "0 \<le> q" "q \<le> y" by linarith+
  then show ?thesis by (simp add: q_def)
qed

lemma i64_div_512:
  assumes "0 \<le> sint (y::i64)"
  shows "sint (i64_div y 512) = sint y div 512"
proof -
  have s: "sint y sdiv 512 = sint y div 512"
    using assms by (simp add: signed_divide_int_def sgn_if)
  have "sint y < 2 ^ 63" using sint_lt [of y] by simp
  moreover have "0 \<le> sint y div 512 \<and> sint y div 512 \<le> sint y"
    using assms by (rule div_512_bounds)
  ultimately have "- (2 ^ 63) \<le> sint y div 512" "sint y div 512 < 2 ^ 63"
    by linarith+
  then have "sint (word_of_int (sint y div 512) :: i64) = sint y div 512"
    by (simp add: sint_sbintrunc' signed_take_bit_int_eq_self)
  then show ?thesis by (simp add: i64_div_def s)
qed

lemma fillStat_blocks:
  assumes "0 < sint (fi_Size info)" "sint (fi_Size info) \<le> 2 ^ 63 - 512"
  shows "sint (Stat_Blocks (fillStat stat info uid gid)) = (sint (fi_Size info) + 511) div 512"
proof -
  have "sint (fi_Size info + 511) = sint (fi_Size info) + 511"
    using assms by (rule sint_add_511)
  moreover from this have "0 \<le> sint (fi_Size info + 511)" using assms by simp
  ultimately show ?thesis
    using assms(1) by (simp add: fillStat_def Let_def i64_div_512)
qed

lemma fillStat_blocks_overflow:
  "sint (Stat_Blocks (fillStat zero_Stat
      \<lparr>fi_Name = ''huge'', fi_Size = 9223372036854775807, fi_Mode = 33188,
       fi_ModTimeUnix = 0, fi_IsDir = False\<rparr> 0 0)) = - 18014398509481983"
  by (simp add: fillStat_def Let_def i64_div_def signed_divide_int_def zero_Stat_def)

lemma ceil_div:
  assumes "0 < (s::int)"
  shows "512 * ((s + 511) div 512 - 1) < s \<and> s \<le> 512 * ((s + 511) div 512)"
proof -
  define q where "q = (s + 511) div 512"
  define r where "r = (s + 511) mod 512"
  have "s + 511 = 512 * q + r" by (simp add: q_def r_def)
  moreover have "0 \<le> r" "r < 512" by (simp_all add: r_def)
  ultimately have "512 * (q - 1) < s" "s \<le> 512 * q" by (simp_all add: algebra_simps)
  then show ?thesis by (simp add: q_def)
qed

text \<open>
  C3, as the code has it: for every host-native file info (its \<open>st_mode\<close> names one of
  the seven file types), encoding it with \<open>fileInfoToProto\<close> and rendering it with
  \<open>fillStat\<close> preserves the type bits of the mode (indeed all of its type, setuid, setgid,
  sticky and permission bits), the size and the modification time in whole seconds;
  atime = ctime = birthtime = mtime, nlink is 2 for a directory and 1 otherwise, blksize is
  4096. For a size between 1 and 2^63 - 512, blocks is the ceiling of size / 512; for a
  size of 0 or less \<open>fillStat\<close> leaves blocks as the structure had it.
\<close>

theorem metadata_roundtrip:
  assumes "valid_file_type (sys_Mode sys)"
  shows "let st = fillStat stat (fileInfoToProto (fillFileStatFromSys name sys)) uid gid in
           Stat_Mode st AND S_IFMT = sys_Mode sys AND S_IFMT
         \<and> Stat_Mode st = sys_Mode sys AND 65535
         \<and> Stat_Size st = sys_Size sys
         \<and> Stat_Mtim st = \<lparr>Sec = Sec (sys_Mtim sys), Nsec = 0\<rparr>
         \<and> Stat_Atim st = Stat_Mtim st \<and> Stat_Ctim st = Stat_Mtim st
         \<and> Stat_Birthtim st = Stat_Mtim st
         \<and> Stat_Nlink st = (if sys_Mode sys AND S_IFMT = S_IFDIR then 2 else 1)
         \<and> Stat_Blksize st = 4096
         \<and> (0 < sint (sys_Size sys) \<and> sint (sys_Size sys) \<le> 2 ^ 63 - 512 \<longrightarrow>
              512 * (sint (Stat_Blocks st) - 1) < sint (sys_Size sys)
              \<and> sint (sys_Size sys) \<le> 512 * sint (Stat_Blocks st))
         \<and> (sint (sys_Size sys) \<le> 0 \<longrightarrow> Stat_Blocks st = Stat_Blocks stat)"
proof -
  let ?info = "fileInfoToProto (fillFileStatFromSys name sys)"
  let ?st = "fillStat stat ?info uid gid"
  have size: "fi_Size ?info = sys_Size sys"
    by (simp add: fileInfoToProto_def fillFileStatFromSys_def)
  have mode: "Stat_Mode ?st = sys_Mode sys AND 65535"
    using mode_roundtrip [OF assms]
    by (simp add: fillStat_def Let_def fileInfoToProto_def fillFileStatFromSys_def)
  have tbits: "Stat_Mode ?st AND S_IFMT = sys_Mode sys AND S_IFMT"
    unfolding mode by (simp add: S_IFMT_def and.assoc)
  have rest: "Stat_Size ?st = sys_Size sys"
    "Stat_Mtim ?st = \<lparr>Sec = Sec (sys_Mtim sys), Nsec = 0\<rparr>"
    "Stat_Atim ?st = Stat_Mtim ?st" "Stat_Ctim ?st = Stat_Mtim ?st"
    "Stat_Birthtim ?st = Stat_Mtim ?st"
    "Stat_Nlink ?st = (if sys_Mode sys AND S_IFMT = S_IFDIR then 2 else 1)"
    "Stat_Blksize ?st = 4096"
    by (simp_all add: fillStat_def Let_def fileInfoToProto_def fillFileStatFromSys_def
        Time_Unix_def sys_dir)
  have blocks: "512 * (sint (Stat_Blocks ?st) - 1) < sint (sys_Size sys)
      \<and> sint (sys_Size sys) \<le> 512 * sint (Stat_Blocks ?st)"
    if "0 < sint (sys_Size sys)" "sint (sys_Size sys) \<le> 2 ^ 63 - 512"
  proof -
    have "sint (Stat_Blocks ?st) = (sint (sys_Size sys) + 511) div 512"
      using fillStat_blocks [of ?info stat uid gid] that size by simp
    then show ?thesis
      using ceil_div [OF that(1)] by simp
  qed
  have untouched: "Stat_Blocks ?st = Stat_Blocks stat" if "sint (sys_Size sys) \<le> 0"
    using that size by (simp add: fillStat_def Let_def)
  show ?thesis
    unfolding Let_def using mode tbits rest blocks untouched by blast
qed

theorem metadata_roundtrip_witness:
  "valid_file_type 16877
   \<and> Stat_Mode (fillStat zero_Stat (fileInfoToProto (fillFileStatFromSys ''src''
        \<lparr>sys_Mode = 16877, sys_Size = 4096, sys_Mtim = \<lparr>Sec = 1700000000, Nsec = 123\<rparr>\<rparr>))
        1000 1000) = 16877
   \<and> Stat_Nlink (fillStat zero_Stat (fileInfoToProto (fillFileStatFromSys ''src''
        \<lparr>sys_Mode = 16877, sys_Size = 4096, sys_Mtim = \<lparr>Sec = 1700000000, Nsec = 123\<rparr>\<rparr>))
        1000 1000) = 2
   \<and> 512 * (sint (Stat_Blocks (fillStat zero_Stat (fileInfoToProto (fillFileStatFromSys ''src''
        \<lparr>sys_Mode = 16877, sys_Size = 4096, sys_Mtim = \<lparr>Sec = 1700000000, Nsec = 123\<rparr>\<rparr>))
        1000 1000)) - 1) < 4096
   \<and> 4096 \<le> 512 * sint (Stat_Blocks (fillStat zero_Stat (fileInfoToProto (fillFileStatFromSys ''src''
        \<lparr>sys_Mode = 16877, sys_Size = 4096, sys_Mtim = \<lparr>Sec = 1700000000, Nsec = 123\<rparr>\<rparr>))
        1000 1000))"
proof -
  let ?sys = "\<lparr>sys_Mode = 16877, sys_Size = 4096, sys_Mtim = \<lparr>Sec = 1700000000, Nsec = 123\<rparr>\<rparr>"
  have v: "valid_file_type (sys_Mode ?sys)"
    by (simp add: valid_file_type_def mode_defs)
  have d: "sys_Mode ?sys AND S_IFMT = S_IFDIR" "sys_Mode ?sys AND 65535 = 16877"
    "0 < sint (sys_Size ?sys)" "sint (sys_Size ?sys) \<le> 2 ^ 63 - 512" "sint (sys_Size ?sys) = 4096"
    by (simp_all add: mode_defs)
  from metadata_roundtrip [OF v, of zero_Stat "''src''" 1000 1000] v d
  show ?thesis
    unfolding Let_def by simp
qed

text \<open>
  C3 as stated fails: \<open>fillStat\<close> does not set blocks for an empty file (a structure that
  held 8 still holds 8, not 0), and for a size of 2^63 - 1 the sum \<open>size + 511\<close> wraps
  around and blocks is negative.
\<close>

theorem fillStat_blocks_not_ceil:
  "Stat_Blocks (fillStat (zero_Stat\<lparr>Stat_Blocks := 8\<rparr>) (fileInfoToProto (fillFileStatFromSys ''empty.txt''
        \<lparr>sys_Mode = 33188, sys_Size = 0, sys_Mtim = \<lparr>Sec = 1700000000, Nsec = 0\<rparr>\<rparr>)) 0 0) = 8
   \<and> sint (Stat_Blocks (fillStat zero_Stat (fileInfoToProto (fillFileStatFromSys ''huge''
        \<lparr>sys_Mode = 33188, sys_Size = 9223372036854775807,
         sys_Mtim = \<lparr>Sec = 1700000000, Nsec = 0\<rparr>\<rparr>)) 0 0)) = - 18014398509481983"
  by (simp add: fillStat_def Let_def i64_div_def signed_divide_int_def zero_Stat_def
      fileInfoToProto_def fillFileStatFromSys_def)

subsection \<open>C4: a burst of triggers fires once\<close>

lemma advance_idle:
  assumes "\<forall>x \<in> set (timers st). \<not> expired now x"
  shows "advance now st = st"
proof -
  have "filter (expired now) (timers st) = []"
    using assms by (simp add: filter_empty_conv)
  moreover have "map (\<lambda>t. if expired now t then t\<lparr>t_armed := False\<rparr> else t) (timers st) = timers st"
    using assms by (simp add: map_idI)
  ultimately show ?thesis by (simp add: advance_def)
qed

lemma Trigger_idle:
  assumes "idle d cs st"
  shows "pending_at d cs t (Trigger t (advance t st))"
proof -
  have "\<forall>x \<in> set (timers st). \<not> expired t x"
    using assms by (simp add: idle_def expired_def)
  then have adv: "advance t st = st" by (rule advance_idle)
  let ?st1 = "case d_timer st of None \<Rightarrow> st | Some i \<Rightarrow> timer_Stop i st"
  have old: "\<forall>x \<in> set (timers ?st1). \<not> t_armed x"
  proof (cases "d_timer st")
    case None
    then show ?thesis using assms by (simp add: idle_def)
  next
    case (Some i)
    have "set ((timers st)[i := (timers st ! i)\<lparr>t_armed := False\<rparr>])
        \<subseteq> insert ((timers st ! i)\<lparr>t_armed := False\<rparr>) (set (timers st))"
      by (rule set_update_subset_insert)
    then show ?thesis using Some assms by (auto simp: idle_def timer_Stop_def)
  qed
  have rest: "delay ?st1 = d" "calls ?st1 = cs"
    using assms by (auto simp: idle_def timer_Stop_def split: option.splits)
  have "timers (Trigger t st) = timers ?st1 @ [\<lparr>t_when = t + max 0 d, t_armed = True\<rparr>]"
    "d_timer (Trigger t st) = Some (length (timers ?st1))"
    "delay (Trigger t st) = d" "calls (Trigger t st) = cs"
    using rest by (simp_all add: Trigger_def time_AfterFunc_def Let_def)
  then show ?thesis
    unfolding adv pending_at_def using old by blast
qed

lemma Trigger_pending:
  assumes "pending_at d cs t st" "t \<le> t'" "t' - t < d"
  shows "pending_at d cs t' (Trigger t' (advance t' st))"
proof -
  from assms(1) obtain olds where
    tm: "timers st = olds @ [\<lparr>t_when = t + max 0 d, t_armed = True\<rparr>]"
    and old: "\<forall>x \<in> set olds. \<not> t_armed x"
    and dt: "d_timer st = Some (length olds)"
    and dl: "delay st = d" and cl: "calls st = cs"
    by (auto simp: pending_at_def)
  have "\<forall>x \<in> set (timers st). \<not> expired t' x"
    using tm old assms(2,3) by (auto simp: expired_def)
  then have adv: "advance t' st = st" by (rule advance_idle)
  have "timers (Trigger t' st) =
      (olds @ [\<lparr>t_when = t + max 0 d, t_armed = False\<rparr>]) @ [\<lparr>t_when = t' + max 0 d, t_armed = True\<rparr>]"
    using tm dt dl by (simp add: Trigger_def timer_Stop_def time_AfterFunc_def)
  moreover have "d_timer (Trigger t' st) = Some (length (olds @ [\<lparr>t_when = t + max 0 d, t_armed = False\<rparr>]))"
    using tm dt by (simp add: Trigger_def timer_Stop_def time_AfterFunc_def)
  moreover have "\<forall>x \<in> set (olds @ [\<lparr>t_when = t + max 0 d, t_armed = False\<rparr>]). \<not> t_armed x"
    using old by auto
  moreover have "delay (Trigger t' st) = d" "calls (Trigger t' st) = cs"
    using dl cl by (simp_all add: Trigger_def timer_Stop_def time_AfterFunc_def split: option.splits)
  ultimately show ?thesis
    unfolding adv pending_at_def by blast
qed

lemma run_burst:
  assumes "pending_at d cs t st" "burst d (t # ts)"
  shows "pending_at d cs (last (t # ts)) (run st (triggers ts))"
  using assms
proof (induction ts arbitrary: t st)
  case Nil
  then show ?case by (simp add: triggers_def)
next
  case (Cons t' ts)
  from Cons.prems have "pending_at d cs t' (Trigger t' (advance t' st))"
    by (auto intro: Trigger_pending)
  moreover from Cons.prems have "burst d (t' # ts)" by simp
  ultimately have "pending_at d cs (last (t' # ts)) (run (Trigger t' (advance t' st)) (triggers ts))"
    by (rule Cons.IH)
  then show ?case by (simp add: triggers_def)
qed

lemma advance_pending:
  assumes "pending_at d cs t st"
  shows "calls (advance T st) = cs @ (if t + max 0 d \<le> T then [t + max 0 d] else [])"
proof -
  from assms obtain olds where
    tm: "timers st = olds @ [\<lparr>t_when = t + max 0 d, t_armed = True\<rparr>]"
    and old: "\<forall>x \<in> set olds. \<not> t_armed x"
    and cl: "calls st = cs"
    by (auto simp: pending_at_def)
  have f: "filter (expired T) olds = []"
    using old by (simp add: filter_empty_conv expired_def)
  show ?thesis
    using tm cl f by (simp add: advance_def expired_def fire_def)
qed

lemma idle_after_fire:
  assumes "pending_at d cs t st" "t + max 0 d \<le> T"
  shows "idle d (cs @ [t + max 0 d]) (advance T st)"
proof -
  from assms obtain olds where
    tm: "timers st = olds @ [\<lparr>t_when = t + max 0 d, t_armed = True\<rparr>]"
    and old: "\<forall>x \<in> set olds. \<not> t_armed x"
    and dt: "d_timer st = Some (length olds)"
    and dl: "delay st = d" and cl: "calls st = cs"
    by (auto simp: pending_at_def)
  have f: "filter (expired T) olds = []"
    using old by (simp add: filter_empty_conv expired_def)
  show ?thesis
    using tm old dt dl cl f assms(2)
    by (auto simp: idle_def advance_def expired_def fire_def)
qed

text \<open>
  C4: for every non-empty sequence of Trigger calls on a debouncer at rest in which each
  call comes less than \<open>delay\<close> after the one before, the action has not run again at any
  instant before \<open>delay\<close> after the last Trigger, and has run exactly once more at any
  instant from then on: it runs once, \<open>delay\<close> after the last Trigger (at the last Trigger
  itself when \<open>delay\<close> is not positive). The debouncer is then at rest again
  (\<open>idle_after_fire\<close>).
\<close>

theorem debounce_fires_once:
  assumes "idle d cs st" and "ts \<noteq> []" and "burst d ts"
  shows "calls (advance T (run st (triggers ts)))
           = cs @ (if last ts + max 0 d \<le> T then [last ts + max 0 d] else [])"
proof -
  from assms(2) obtain t rest where ts: "ts = t # rest" by (cases ts) auto
  have "pending_at d cs t (Trigger t (advance t st))"
    using assms(1) by (rule Trigger_idle)
  then have "pending_at d cs (last (t # rest)) (run (Trigger t (advance t st)) (triggers rest))"
    using assms(3) unfolding ts by (rule run_burst)
  then have "pending_at d cs (last ts) (run st (triggers ts))"
    by (simp add: ts triggers_def)
  then show ?thesis by (rule advance_pending)
qed

theorem debounce_fires_once_witness:
  "idle 50 [] (NewDebouncer 50) \<and> [0, 30] \<noteq> ([] :: int list) \<and> burst 50 [0, 30]
   \<and> calls (advance 60 (run (NewDebouncer 50) (triggers [0, 30]))) = []
   \<and> calls (advance 100 (run (NewDebouncer 50) (triggers [0, 30]))) = [80]"
proof -
  have i: "idle 50 [] (NewDebouncer 50)" by (simp add: idle_def NewDebouncer_def)
  have b: "[0, 30] \<noteq> ([] :: int list)" "burst 50 [0, 30]" by simp_all
  from debounce_fires_once [OF i b, of 60] debounce_fires_once [OF i b, of 100] i b
  show ?thesis by simp
qed

subsection \<open>C5: commitAndPush\<close>

lemma Format_nine_five_seven: "Format_150405 nine_five_seven = ''09:05:07''"
  by code_simp

text \<open>
  C5, as the code has it: every run first stages with \<open>add -A\<close>, and returns the error
  "git add: ..." if staging fails. After a successful staging, if
  \<open>diff --cached --quiet\<close> reports no staged changes (exit 0) the run returns success
  and runs no commit. Otherwise it runs exactly one
  \<open>commit -m "mob: auto-save at HH:MM:SS"\<close>; if that commit fails it returns the error
  "git commit: ..." and does not push; if it succeeds it runs
  \<open>push -u origin <session_branch>\<close> once and returns success whether or not the push
  succeeds, a failed push being logged at warn.
\<close>

theorem commitAndPush_behaviour:
  "let commit = commit_args (commit_message now);
       w1 = git_after git (world st) root add_args;
       w2 = git_after git w1 root diff_args;
       w3 = git_after git w2 root commit;
       r = commitAndPush git root branch now st
   in take 1 (ran st (fst r)) = [add_args]
       \<and> (\<not> git_ok git (world st) root add_args \<longrightarrow>
             ran st (fst r) = [add_args] \<and> (\<exists>e. snd (snd r) = Some (''git add: '' @ e)))
       \<and> (git_ok git (world st) root add_args \<and> git_ok git w1 root diff_args \<longrightarrow>
             ran st (fst r) = [add_args, diff_args] \<and> snd (snd r) = None)
       \<and> (git_ok git (world st) root add_args \<and> \<not> git_ok git w1 root diff_args
            \<and> \<not> git_ok git w2 root commit \<longrightarrow>
             ran st (fst r) = [add_args, diff_args, commit]
             \<and> (\<exists>e. snd (snd r) = Some (''git commit: '' @ e)))
       \<and> (git_ok git (world st) root add_args \<and> \<not> git_ok git w1 root diff_args
            \<and> git_ok git w2 root commit \<longrightarrow>
             ran st (fst r) = [add_args, diff_args, commit, push_args branch]
             \<and> snd (snd r) = None
             \<and> (\<not> git_ok git w3 root (push_args branch) \<longrightarrow>
                   (WarnLevel, ''Push failed (no remote?)'') \<in> set (fst (snd r))))"
proof -
  let ?commit = "commit_args (commit_message now)"
  obtain a1 o1 e1 where g1: "git (world st) root add_args = (a1, o1, e1)"
    by (cases "git (world st) root add_args") auto
  obtain a2 o2 e2 where g2: "git a1 root diff_args = (a2, o2, e2)"
    by (cases "git a1 root diff_args") auto
  obtain a3 o3 e3 where g3: "git a2 root ?commit = (a3, o3, e3)"
    by (cases "git a2 root ?commit") auto
  obtain a4 o4 e4 where g4: "git a3 root (push_args branch) = (a4, o4, e4)"
    by (cases "git a3 root (push_args branch)") auto
  show ?thesis
    using g1 g2 g3 g4
    by (cases e1; cases e2; cases e3; cases e4)
       (simp_all add: commitAndPush_def runGit_def ran_def git_ok_def git_after_def Let_def)
qed

theorem commitAndPush_behaviour_witness:
  "git_ok git_no_remote () ''/ws'' add_args
   \<and> \<not> git_ok git_no_remote () ''/ws'' diff_args
   \<and> git_ok git_no_remote () ''/ws'' (commit_args (commit_message nine_five_seven))
   \<and> \<not> git_ok git_no_remote () ''/ws'' (push_args ''mob/session-1a2b3c4d'')
   \<and> commitAndPush git_no_remote ''/ws'' ''mob/session-1a2b3c4d'' nine_five_seven fresh_git =
       (\<lparr>world = (), trace = [[''add'', ''-A''], [''diff'', ''--cached'', ''--quiet''],
           [''commit'', ''-m'', ''mob: auto-save at 09:05:07''],
           [''push'', ''-u'', ''origin'', ''mob/session-1a2b3c4d'']]\<rparr>,
        [(InfoLevel, ''Auto-committed''), (WarnLevel, ''Push failed (no remote?)'')], None)"
proof -
  have e: "commitAndPush git_no_remote ''/ws'' ''mob/session-1a2b3c4d'' nine_five_seven fresh_git =
       (\<lparr>world = (), trace = [[''add'', ''-A''], [''diff'', ''--cached'', ''--quiet''],
           [''commit'', ''-m'', ''mob: auto-save at 09:05:07''],
           [''push'', ''-u'', ''origin'', ''mob/session-1a2b3c4d'']]\<rparr>,
        [(InfoLevel, ''Auto-committed''), (WarnLevel, ''Push failed (no remote?)'')], None)"
    by (simp add: commitAndPush_def runGit_def git_no_remote_def add_args_def diff_args_def
        commit_args_def push_args_def commit_message_def Format_nine_five_seven fresh_git_def Let_def)
  have g: "git_ok git_no_remote () ''/ws'' add_args"
    "\<not> git_ok git_no_remote () ''/ws'' diff_args"
    "git_ok git_no_remote () ''/ws'' (commit_args (commit_message nine_five_seven))"
    "\<not> git_ok git_no_remote () ''/ws'' (push_args ''mob/session-1a2b3c4d'')"
    by (simp_all add: git_ok_def git_no_remote_def add_args_def diff_args_def commit_args_def
        push_args_def)
  from commitAndPush_behaviour [where git = git_no_remote and root = "''/ws''"
      and branch = "''mob/session-1a2b3c4d''" and now = nine_five_seven and st = fresh_git] e g
  show ?thesis by simp
qed

text \<open>
  C5 as stated fails: with staged changes and a commit that is refused, the run makes no
  commit, attempts no push and returns an error.
\<close>

theorem commitAndPush_commit_failure:
  "git_ok git_commit_refused () ''/ws'' add_args
   \<and> \<not> git_ok git_commit_refused () ''/ws'' diff_args
   \<and> commitAndPush git_commit_refused ''/ws'' ''mob/session-1a2b3c4d'' nine_five_seven fresh_git =
     (\<lparr>world = (), trace = [[''add'', ''-A''], [''diff'', ''--cached'', ''--quiet''],
         [''commit'', ''-m'', ''mob: auto-save at 09:05:07'']]\<rparr>,
      [], Some ''git commit: exit status 1'')"
  by (simp add: commitAndPush_def runGit_def git_commit_refused_def add_args_def diff_args_def
      commit_args_def commit_message_def Format_nine_five_seven fresh_git_def Let_def git_ok_def)

subsection \<open>C6: WriteFile never creates a file\<close>










subsection \<open>C7: the read length is clamped to 1 MiB\<close>






subsection \<open>C8: Statfs\<close>

text \<open>
  C8, as the code has it: for every path and every incoming structure, Statfs returns 0
  and sets bsize = frsize = 4096, namemax = 255 and blocks = 2^30, which at 4096 bytes a
  block is a total capacity of exactly 4 TiB (2^42 bytes).
\<close>

theorem Statfs_constants:
  "fst (Statfs path stat) = 0
   \<and> Bsize (snd (Statfs path stat)) = 4096
   \<and> Frsize (snd (Statfs path stat)) = 4096
   \<and> Namemax (snd (Statfs path stat)) = 255
   \<and> Blocks (snd (Statfs path stat)) = 2 ^ 30
   \<and> total_capacity (snd (Statfs path stat)) = 4 * TiB"
  by (simp add: Statfs_def total_capacity_def TiB_def)

text \<open>
  C8 as stated fails: the advertised capacity is not 1 TiB, nor within a factor of two
  of it.
\<close>

theorem Statfs_not_one_TiB:
  "total_capacity (snd (Statfs ''/'' \<lparr>Bsize = 0, Frsize = 0, Blocks = 0, Bfree = 0, Bavail = 0,
      Files = 0, Ffree = 0, Favail = 0, Fsid = 0, Flag = 0, Namemax = 0\<rparr>)) \<noteq> TiB
   \<and> \<not> total_capacity (snd (Statfs ''/'' \<lparr>Bsize = 0, Frsize = 0, Blocks = 0, Bfree = 0,
      Bavail = 0, Files = 0, Ffree = 0, Favail = 0, Fsid = 0, Flag = 0, Namemax = 0\<rparr>)) \<le> 2 * TiB"
  by (simp add: Statfs_def total_capacity_def TiB_def)

subsection \<open>C9: reading at or past the end of a file\<close>




subsection \<open>C10: the proxy's write never truncates\<close>

lemma write_at_frame:
  "length bs \<le> length (write_at bs off b)
   \<and> (\<forall>i<length bs. i < off \<or> off + length b \<le> i \<longrightarrow> write_at bs off b ! i = bs ! i)"
  by (auto simp: write_at_def nth_append min_def)

lemma frame_ok_refl: "frame_ok fs fs off len"
  by (auto simp: frame_ok_def split: entry.splits node.splits)

lemma os_OpenFile_wronly: "fst (os_OpenFile fs name {O_WRONLY} perm) = fs"
  by (auto simp: os_OpenFile_def Let_def split: entry.splits node.splits)

lemma os_OpenFile_name: "os_OpenFile fs name flag perm = (fs1, Inr f) \<Longrightarrow> f = \<lparr>f_name = name, f_offset = 0\<rparr>"
  by (auto simp: os_OpenFile_def Let_def split: entry.splits node.splits if_splits)

lemma write_at_take_frame:
  "length bs \<le> length (write_at bs off (take k b))
   \<and> (\<forall>i<length bs. i < off \<or> off + length b \<le> i \<longrightarrow> write_at bs off (take k b) ! i = bs ! i)"
  using write_at_frame [of bs off "take k b"] by auto

lemma File_Write_frame:
  "frame_ok fs (fst (File_Write maxbytes fs f b)) (f_offset f) (length b)"
  using write_at_take_frame
  by (auto simp: frame_ok_def File_Write_def Let_def split: entry.splits node.splits)

lemma WriteFile_frame:
  assumes "\<not> wf_Truncate req" and "0 \<le> sint (wf_Offset req)"
  shows "frame_ok fs (fst (WriteFile root maxbytes fs req)) (nat (sint (wf_Offset req)))
           (length (wf_Data req))"
proof (cases "resolve root (wf_Path req)")
  case (Inl st)
  then show ?thesis by (simp add: WriteFile_def frame_ok_refl)
next
  case (Inr apath)
  note res = this
  obtain fs1 r1 where o: "os_OpenFile fs apath {O_WRONLY} 0 = (fs1, r1)"
    by (cases "os_OpenFile fs apath {O_WRONLY} 0") auto
  have fs1: "fs1 = fs" using os_OpenFile_wronly [of fs apath 0] o by simp
  show ?thesis
  proof (cases r1)
    case (Inl err)
    then show ?thesis using assms res o fs1 by (simp add: WriteFile_def frame_ok_refl)
  next
    case (Inr f)
    note f = this
    have fn: "f = \<lparr>f_name = apath, f_offset = 0\<rparr>"
      using os_OpenFile_name o f by blast
    show ?thesis
    proof (cases "if 0 < sint (wf_Offset req) then File_Seek maxbytes fs f (wf_Offset req) else Inr f")
      case (Inl err)
      then show ?thesis using assms res o fs1 f by (simp add: WriteFile_def frame_ok_refl)
    next
      case (Inr f')
      have off: "f_offset f' = nat (sint (wf_Offset req))"
        using Inr fn assms(2)
        by (auto simp: File_Seek_def split: if_splits entry.splits node.splits)
      have "fst (WriteFile root maxbytes fs req) = fst (File_Write maxbytes fs f' (wf_Data req))"
        using assms(1) res o fs1 f Inr
        by (cases "File_Write maxbytes fs f' (wf_Data req)";
            cases "snd (File_Write maxbytes fs f' (wf_Data req))")
           (auto simp: WriteFile_def)
      then show ?thesis
        using File_Write_frame [of fs maxbytes f' "wf_Data req"] off by simp
    qed
  qed
qed

text \<open>
  C10: the request that \<open>RemoteFS.Write\<close> sends has truncate = false. Whatever the
  transport does and whatever the host answers, after a write of \<open>buff\<close> at an offset
  \<open>ofst\<close> that is not negative every regular file on the host is still a regular file
  with the same permissions, is at least as long as before, and holds its old bytes at
  every old position outside \<open>[ofst, ofst + len(buff))\<close>; everything else on the host is
  unchanged.
\<close>

theorem Write_never_truncates:
  assumes "0 \<le> sint ofst"
  shows "wf_Truncate (Write_request path buff ofst) = False
         \<and> (\<forall>q. case fs q of
                 Node (RegularFile bs r w) \<Rightarrow>
                   (\<exists>bs'. fst (RemoteFS_Write tr root maxbytes fs path buff ofst fh) q
                            = Node (RegularFile bs' r w)
                      \<and> length bs \<le> length bs'
                      \<and> (\<forall>i<length bs. i < nat (sint ofst) \<or> nat (sint ofst) + length buff \<le> i
                            \<longrightarrow> bs' ! i = bs ! i))
               | _ \<Rightarrow> fst (RemoteFS_Write tr root maxbytes fs path buff ofst fh) q = fs q)"
proof -
  let ?req = "Write_request path buff ofst"
  have w: "frame_ok fs (fst (WriteFile root maxbytes fs ?req)) (nat (sint ofst)) (length buff)"
    using WriteFile_frame [of ?req fs root maxbytes] assms by (simp add: Write_request_def)
  have c: "fst (client_WriteFile tr root maxbytes fs ?req) = fs
           \<or> fst (client_WriteFile tr root maxbytes fs ?req) = fst (WriteFile root maxbytes fs ?req)"
    by (cases tr; cases "WriteFile root maxbytes fs ?req"; cases "snd (WriteFile root maxbytes fs ?req)")
       (auto simp: client_WriteFile_def)
  have "fst (RemoteFS_Write tr root maxbytes fs path buff ofst fh)
          = fst (client_WriteFile tr root maxbytes fs ?req)"
    by (cases "client_WriteFile tr root maxbytes fs ?req";
        cases "snd (client_WriteFile tr root maxbytes fs ?req)")
       (auto simp: RemoteFS_Write_def)
  with c w have "frame_ok fs (fst (RemoteFS_Write tr root maxbytes fs path buff ofst fh))
                   (nat (sint ofst)) (length buff)"
    using frame_ok_refl [of fs "nat (sint ofst)" "length buff"] by auto
  then show ?thesis
    unfolding frame_ok_def by (simp add: Write_request_def)
qed

theorem Write_never_truncates_witness:
  "0 \<le> sint (1 :: i64)
   \<and> RemoteFS_Write Delivered ''/ws'' maxbytes_ext4 fs0 ''a.txt'' [9, 9] 1 3 =
       (fs0(''/ws/a.txt'' := Node (RegularFile [1, 9, 9, 4, 5] True True)), 2)"
proof -
  have e: "RemoteFS_Write Delivered ''/ws'' maxbytes_ext4 fs0 ''a.txt'' [9, 9] 1 3 =
       (fs0(''/ws/a.txt'' := Node (RegularFile [1, 9, 9, 4, 5] True True)), 2)"
    by (simp add: RemoteFS_Write_def client_WriteFile_def Write_request_def WriteFile_def resolve_a
        os_OpenFile_def File_Seek_def File_Write_def write_at_def fs0_def Let_def
        sint_maxbytes_ext4)
  from Write_never_truncates [where ofst = 1 and path = "''a.txt''" and buff = "[9, 9]" and fs = fs0
      and tr = Delivered and root = "''/ws''" and fh = 3 and maxbytes = maxbytes_ext4] e
  show ?thesis by simp
qed

end
